theory Spec2Isabelle
  imports Complex_Main "HOL-Library.Multiset" "HOL-Library.AList"
begin

section \<open>Data model of the action engine (engine/action.go)\<close>

text \<open>
  Go's \<open>float64\<close> is modelled as \<open>real\<close>: the handlers only compare weights and
  values, negate them and add them, and none of the properties below depends on rounding
  or on NaN. A Go \<open>error\<close> return is an \<open>error option\<close> (\<open>None\<close> is \<open>nil\<close>); a
  run-time panic is the outcome \<open>Panic\<close>.
\<close>

datatype 'a outcome = Panic | Return 'a

type_synonym addr = nat

text \<open>
  \<open>BalanceFilter\<close> is declared in another file of the package; the record holds what
  action.go reads and writes of it: \<open>GetType()\<close>, \<open>GetValue()\<close>/\<open>SetValue()\<close>, the two
  optional flags \<open>Disabled\<close> and \<open>Blocker\<close> (both \<open>*bool\<close>: absent, or explicitly true or
  false), and what \<open>parseTemplateValue\<close> reads of it, directly or through
  \<open>CreateBalance()\<close>: the ids and rating subject as strings (empty when absent) and the
  string maps as the strings their \<open>String()\<close> renders. The field names carry the suffix
  \<open>_bf\<close> because \<open>Balance\<close> and \<open>Account\<close> have fields of the same names.
\<close>

record BalanceFilter =
  Uuid_bf :: string
  ID_bf :: string
  Type_bf :: string
  Value_bf :: real
  Directions_bf :: string
  DestinationIDs_bf :: string
  RatingSubject_bf :: string
  Categories_bf :: string
  SharedGroups_bf :: string
  Disabled_bf :: "bool option"
  Blocker_bf :: "bool option"

text \<open>The struct \<open>Action\<close> (action.go, lines 45-54); \<open>Balance\<close> is a pointer.\<close>

record Action =
  Id_a :: string
  ActionType :: string
  ExtraParameters :: string
  Filter_a :: string
  ExpirationString :: string
  Weight :: real
  Balance :: "addr option"
  balanceValue :: real

text \<open>
  An account balance (\<open>Balance\<close> of the account model, declared in another file of
  the package): the fields action.go touches.
\<close>

record Balance =
  Uuid :: string
  ID_b :: string
  Value :: real
  DestinationIDs :: "string list"

text \<open>
  \<open>Account\<close>: the fields action.go touches. \<open>BalanceMap\<close> maps a balance type to its
  bucket, a slice of pointers to balances. A nil Go map reads like an empty one, and
  every write in action.go is preceded by its initialisation, so nil and empty are not
  told apart.
\<close>

record Account =
  ID :: string
  BalanceMap :: "string \<rightharpoonup> addr list"
  AllowNegative :: bool
  Disabled :: bool

record CDRStatsQueueTriggered =
  Id_sq :: string
  Metrics :: "(string \<times> real) list"
  Trigger :: string

text \<open>
  The heap: actions, balance filters and balances are reached through pointers, so each
  kind of object lives in a store indexed by address. \<open>nextAction\<close> and \<open>nextFilter\<close> are
  the allocation marks: an address below the mark is allocated, the addresses from the
  mark on are free.
\<close>

record store =
  actions :: "addr \<Rightarrow> Action"
  nextAction :: addr
  filters :: "addr \<Rightarrow> BalanceFilter"
  nextFilter :: addr
  balances :: "addr \<Rightarrow> Balance"

datatype error =
    NilAccount                \<comment> \<open>\<open>errors.New("nil account")\<close>\<close>
  | NilAccountFor Action      \<comment> \<open>\<open>fmt.Errorf("nil account for %s action", ...)\<close>\<close>
  | UnconfiguredMail          \<comment> \<open>\<open>errors.New("Unconfigured parameters for mail action")\<close>\<close>
  | ErrNotFound               \<comment> \<open>\<open>utils.ErrNotFound\<close>\<close>
  | ErrAccountNotFound        \<comment> \<open>\<open>utils.ErrAccountNotFound\<close>\<close>
  | ErrInvalidKey             \<comment> \<open>\<open>utils.ErrInvalidKey\<close>\<close>
  | ErrParserError            \<comment> \<open>\<open>utils.ErrParserError\<close>\<close>
  | External string           \<comment> \<open>an error handed back by a collaborator (store, codec, RPC)\<close>

text \<open>\<open>type Actions []*Action\<close>\<close>

type_synonym Actions = "addr list"

section \<open>\<open>Actions\<close> as a \<open>sort.Interface\<close>, and \<open>Sort\<close> (action.go, lines 884-899)\<close>

text \<open>
  \<open>Len\<close>, \<open>Swap\<close> and \<open>Less\<close>; the names of the parameters of \<open>Less\<close> are the source's.
  \<open>sort.Sort\<close> calls \<open>Swap\<close> and \<open>Less\<close> with indices below \<open>Len\<close> only, where \<open>apl ! i\<close> is
  the element \<open>apl[i]\<close>.
\<close>

definition Len :: "Actions \<Rightarrow> nat" where
  "Len apl = length apl"

definition Swap :: "Actions \<Rightarrow> nat \<Rightarrow> nat \<Rightarrow> Actions" where
  "Swap apl i j = apl[i := apl ! j, j := apl ! i]"

definition Less :: "store \<Rightarrow> Actions \<Rightarrow> nat \<Rightarrow> nat \<Rightarrow> bool" where
  "Less st apl j i \<longleftrightarrow> Weight (actions st (apl ! i)) < Weight (actions st (apl ! j))"

text \<open>
  Go's \<open>sort.Interface\<close>: the three methods, on the data \<open>'d\<close> they read and rearrange.
\<close>

record 'd Interface =
  iLen :: "'d \<Rightarrow> nat"
  iLess :: "'d \<Rightarrow> nat \<Rightarrow> nat \<Rightarrow> bool"
  iSwap :: "'d \<Rightarrow> nat \<Rightarrow> nat \<Rightarrow> 'd"

definition ActionsInterface :: "store \<Rightarrow> Actions Interface" where
  "ActionsInterface st = \<lparr>iLen = Len, iLess = Less st, iSwap = Swap\<rparr>"

text \<open>
  \<open>func (apl Actions) Sort() { sort.Sort(apl) }\<close>. \<open>sort.Sort\<close> belongs to Go's standard
  library and is a parameter.
\<close>

definition Sort :: "(Actions Interface \<Rightarrow> Actions \<Rightarrow> Actions) \<Rightarrow> store \<Rightarrow> Actions \<Rightarrow> Actions" where
  "Sort sort_Sort st apl = sort_Sort (ActionsInterface st) apl"

text \<open>
  What the library promises of \<open>sort.Sort\<close>, and all it promises ("The sort is not
  guaranteed to be stable"): it rearranges the data by calls of \<open>Swap\<close> within the bounds
  (\<open>swapped\<close>), and in the result no element is \<open>Less\<close> than an element before it.
\<close>

inductive swapped :: "Actions \<Rightarrow> Actions \<Rightarrow> bool" where
  swapped_refl: "swapped apl apl"
| swapped_step: "swapped apl b \<Longrightarrow> i < Len b \<Longrightarrow> j < Len b \<Longrightarrow> swapped apl (Swap b i j)"

definition sorts :: "store \<Rightarrow> (Actions Interface \<Rightarrow> Actions \<Rightarrow> Actions) \<Rightarrow> bool" where
  "sorts st sort_Sort \<longleftrightarrow>
     (\<forall>apl. swapped apl (sort_Sort (ActionsInterface st) apl) \<and>
            (\<forall>i j. i < j \<longrightarrow> j < Len (sort_Sort (ActionsInterface st) apl) \<longrightarrow>
                   \<not> Less st (sort_Sort (ActionsInterface st) apl) j i))"

text \<open>
  \<open>sort.Sort\<close> as Go's library has it from Go 1.6 to Go 1.18 (sort.go), on a slice of at
  most 12 elements: \<open>quickSort\<close> skips its partitioning loop, makes one pass that compares and
  swaps the elements six places apart, and ends with \<open>insertionSort\<close>.

  \<open>insertionInner\<close> is the inner loop of \<open>insertionSort\<close>,
  \<open>for j := i; j > a && data.Less(j, j-1); j-- { data.Swap(j, j-1) }\<close>,
  and \<open>insertionOuter\<close> the outer one, \<open>for i := a + 1; i < b; i++\<close>.
\<close>

function insertionInner :: "'d Interface \<Rightarrow> 'd \<Rightarrow> nat \<Rightarrow> nat \<Rightarrow> 'd" where
  "insertionInner data d a j =
     (if j > a \<and> iLess data d j (j - 1)
      then insertionInner data (iSwap data d j (j - 1)) a (j - 1)
      else d)"
  by pat_completeness auto
termination
  by (relation "measure (\<lambda>(data, d, a, j). j)") auto

function insertionOuter :: "'d Interface \<Rightarrow> 'd \<Rightarrow> nat \<Rightarrow> nat \<Rightarrow> nat \<Rightarrow> 'd" where
  "insertionOuter data d a b i =
     (if i < b then insertionOuter data (insertionInner data d a i) a b (Suc i) else d)"
  by pat_completeness auto
termination
  by (relation "measure (\<lambda>(data, d, a, b, i). b - i)") auto

definition insertionSort :: "'d Interface \<Rightarrow> 'd \<Rightarrow> nat \<Rightarrow> nat \<Rightarrow> 'd" where
  "insertionSort data d a b = insertionOuter data d a b (a + 1)"

text \<open>
  The pass with gap 6,
  \<open>for i := a + 6; i < b; i++ { if data.Less(i, i-6) { data.Swap(i, i-6) } }\<close>.
\<close>

function shellPass :: "'d Interface \<Rightarrow> 'd \<Rightarrow> nat \<Rightarrow> nat \<Rightarrow> 'd" where
  "shellPass data d b i =
     (if i < b
      then shellPass data (if iLess data d i (i - 6) then iSwap data d i (i - 6) else d) b (Suc i)
      else d)"
  by pat_completeness auto
termination
  by (relation "measure (\<lambda>(data, d, b, i). b - i)") auto

declare insertionInner.simps [simp del] insertionOuter.simps [simp del] shellPass.simps [simp del]

text \<open>
  \<open>quickSort(data, a, b, maxDepth)\<close> when \<open>b - a \<le> 12\<close>, and \<open>sort.Sort\<close> built on it. On a
  longer slice \<open>sort.Sort\<close> partitions first; \<open>sortSmall\<close> is what it runs on a slice of at
  most 12 elements.
\<close>

definition quickSortSmall :: "'d Interface \<Rightarrow> 'd \<Rightarrow> nat \<Rightarrow> nat \<Rightarrow> 'd" where
  "quickSortSmall data d a b =
     (if b - a > 1 then insertionSort data (shellPass data d b (a + 6)) a b else d)"

definition sortSmall :: "'d Interface \<Rightarrow> 'd \<Rightarrow> 'd" where
  "sortSmall data d = quickSortSmall data d 0 (iLen data d)"

section \<open>\<open>mailAsync\<close> (action.go, lines 543-585)\<close>

text \<open>
  \<open>strings.Index\<close> and \<open>strings.Split\<close> of Go's standard library, on byte strings.
  \<open>Split\<close> cuts at each occurrence of the separator found from the left, in turn, and
  ends with the rest of the string; with an empty separator it explodes the string into
  its characters (none for the empty string).
\<close>

fun Index :: "string \<Rightarrow> string \<Rightarrow> nat option" where
  "Index [] sep = (if sep = [] then Some 0 else None)"
| "Index (c # s) sep =
     (if take (length sep) (c # s) = sep then Some 0 else map_option Suc (Index s sep))"

lemma Index_bound: "Index s sep = Some m \<Longrightarrow> m + length sep \<le> length s"
proof (induction s arbitrary: m)
  case Nil
  then show ?case by (simp split: if_splits)
next
  case (Cons c s)
  show ?case
  proof (cases "take (length sep) (c # s) = sep")
    case True
    then have "length (take (length sep) (c # s)) = length sep" by simp
    then have "length sep \<le> length (c # s)" by simp
    with True Cons.prems show ?thesis by simp
  next
    case False
    with Cons.prems obtain k where "Index s sep = Some k" "m = Suc k" by auto
    with Cons.IH show ?thesis by fastforce
  qed
qed

function Split :: "string \<Rightarrow> string \<Rightarrow> string list" where
  "Split s sep =
     (if sep = [] then map (\<lambda>c. [c]) s
      else (case Index s sep of
              None \<Rightarrow> [s]
            | Some m \<Rightarrow> take m s # Split (drop (m + length sep) s) sep))"
  by pat_completeness auto
termination
proof (relation "measure (\<lambda>(s, sep). length s)")
  show "wf (measure (\<lambda>(s, sep). length s))" by simp
next
  fix s sep :: string and m
  assume "sep \<noteq> []" and "Index s sep = Some m"
  then have "m + length sep \<le> length s" and "0 < length sep"
    using Index_bound [of s sep m] by simp_all
  then have "length s - (m + length sep) < length s" by linarith
  then show "((drop (m + length sep) s, sep), (s, sep)) \<in> measure (\<lambda>(s, sep). length s)"
    by simp
qed

declare Split.simps [simp del]

record MailConfig =
  MailerServer :: string
  MailerAuthUser :: string
  MailerAuthPass :: string
  MailerFromAddr :: string

text \<open>
  The message \<open>mailAsync\<close> formats, kept as its arguments: for an account, the recipients,
  the account id, the time and the account as JSON; for a statistics queue, the
  recipients, the queue id, the time, the metrics and the trigger. \<open>NoMessage\<close> is the
  empty message sent when both are nil.
\<close>

datatype mail_body =
    BalanceMail string string string string
  | QueueMail string string string "(string \<times> real) list" string
  | NoMessage

text \<open>The detached sender: what the goroutine is started with.\<close>

record mail_task =
  server :: string
  fromAddr :: string
  toAddrs :: "string list"
  message :: mail_body

text \<open>The loop of lines 550-556: the recipients joined with a comma and a space.\<close>

fun joinAddrs :: "string list \<Rightarrow> string" where
  "joinAddrs [] = []"
| "joinAddrs [x] = x"
| "joinAddrs (x # y # ys) = x @ '', '' @ joinAddrs (y # ys)"

text \<open>
  \<open>mailAsync\<close>. The separators \<open>utils.CSV_SEP\<close> and \<open>utils.FALLBACK_SEP\<close> are constants of
  package utils, each a single character turned into a string by
  \<open>string(...)\<close>; they are parameters, with \<open>json.Marshal\<close> and the clock. The result is
  the error returned and, when the goroutine is started, the task it is started with.
\<close>

definition mailAsync ::
  "char \<Rightarrow> char \<Rightarrow> (Account \<Rightarrow> string + string) \<Rightarrow> string \<Rightarrow> MailConfig \<Rightarrow>
   Account option \<Rightarrow> CDRStatsQueueTriggered option \<Rightarrow> Action \<Rightarrow>
   error option \<times> mail_task option" where
  "mailAsync CSV_SEP FALLBACK_SEP jsonMarshal now cgrCfg ub sq a =
     (let params = Split (ExtraParameters a) [CSV_SEP] in
      if length params = 0 then (Some UnconfiguredMail, None)
      else
        let toAddrs = Split (params ! 0) [FALLBACK_SEP];
            toAddrStr = joinAddrs toAddrs;
            task = (\<lambda>msg. \<lparr>server = MailerServer cgrCfg, fromAddr = MailerFromAddr cgrCfg,
                            toAddrs = toAddrs, message = msg\<rparr>)
        in (case ub of
              Some acc \<Rightarrow>
                (case jsonMarshal acc of
                   Inl e \<Rightarrow> (Some (External e), None)
                 | Inr balJsn \<Rightarrow>
                     (None, Some (task (BalanceMail toAddrStr (ID acc) now balJsn))))
            | None \<Rightarrow>
                (case sq of
                   Some q \<Rightarrow>
                     (None, Some (task (QueueMail toAddrStr (Id_sq q) now (Metrics q)
                                          (Trigger q))))
                 | None \<Rightarrow> (None, Some (task NoMessage)))))"

section \<open>Account lifecycle handlers and \<open>setddestinations\<close>\<close>

text \<open>
  \<open>enableAccountAction\<close> and \<open>disableAccountAction\<close> (lines 464-478). The account is
  passed by pointer: \<open>None\<close> is the nil account, and the handler returns the account as
  it leaves it.
\<close>

definition enableAccountAction ::
  "Account option \<Rightarrow> CDRStatsQueueTriggered option \<Rightarrow> Action \<Rightarrow> Actions \<Rightarrow>
   (error option \<times> Account option) outcome" where
  "enableAccountAction acc sq a acs =
     (case acc of
        None \<Rightarrow> Return (Some NilAccount, None)
      | Some ac \<Rightarrow> Return (None, Some (ac\<lparr>Disabled := False\<rparr>)))"

definition disableAccountAction ::
  "Account option \<Rightarrow> CDRStatsQueueTriggered option \<Rightarrow> Action \<Rightarrow> Actions \<Rightarrow>
   (error option \<times> Account option) outcome" where
  "disableAccountAction acc sq a acs =
     (case acc of
        None \<Rightarrow> Return (Some NilAccount, None)
      | Some ac \<Rightarrow> Return (None, Some (ac\<lparr>Disabled := True\<rparr>)))"

record Destination =
  Id_d :: string
  Prefixes :: "string list"

text \<open>\<open>ActionPlan\<close>: its membership set \<open>AccountIDs\<close> (a \<open>utils.StringMap\<close>).\<close>

record ActionPlan =
  Id_ap :: string
  AccountIDs :: "string set"

datatype cache_prefix = DESTINATION_PREFIX | ACTION_PLAN_PREFIX | AccountActionPlansPrefix

text \<open>
  The data manager \<open>dm\<close> and its \<open>DataDB()\<close>: the storage calls action.go makes, each a
  function of the storage state \<open>'db\<close> that returns its result and the new state. The
  arguments that are the same constant at every call (\<open>utils.NonTransactional\<close>, the
  skip-cache flag \<open>false\<close>, the overwrite flag \<open>true\<close> of \<open>SetActionPlan\<close>, the \<open>nil\<close> plan
  list of \<open>RemAccountActionPlans\<close>) are left out.
\<close>

record 'db DataManager =
  RemoveAccount :: "string \<Rightarrow> 'db \<Rightarrow> error option \<times> 'db"
  GetAccountActionPlans :: "string \<Rightarrow> 'db \<Rightarrow> (string list \<times> error option) \<times> 'db"
  GetActionPlan :: "string \<Rightarrow> 'db \<Rightarrow> (error + ActionPlan) \<times> 'db"
  SetActionPlan :: "string \<Rightarrow> ActionPlan \<Rightarrow> 'db \<Rightarrow> error option \<times> 'db"
  RemAccountActionPlans :: "string \<Rightarrow> 'db \<Rightarrow> error option \<times> 'db"
  CacheDataFromDB :: "cache_prefix \<Rightarrow> string list \<Rightarrow> bool \<Rightarrow> 'db \<Rightarrow> error option \<times> 'db"
  GetDestination :: "string \<Rightarrow> 'db \<Rightarrow> (Destination option \<times> error option) \<times> 'db"
  SetDestination :: "Destination \<Rightarrow> 'db \<Rightarrow> error option \<times> 'db"
  UpdateReverseDestination :: "Destination \<Rightarrow> Destination \<Rightarrow> 'db \<Rightarrow> error option \<times> 'db"

text \<open>\<open>strings.HasPrefix(destId, "*ddc")\<close>\<close>

definition hasDdcPrefix :: "string \<Rightarrow> bool" where
  "hasDdcPrefix destId = (take 4 destId = ''*ddc'')"

text \<open>
  \<open>setddestinations\<close> (lines 587-635). Go ranges over a map in no fixed order; \<open>keys\<close> is
  the order in which this run visits the keys of \<open>ub.BalanceMap\<close>, and \<open>DestinationIDs\<close>
  and \<open>Metrics\<close> are lists in the order they are visited. The three nested loops keep the
  first destination id with the prefix. \<open>ub.BalanceMap\<close> on the first line of the loop
  dereferences \<open>ub\<close>, and \<open>sq.Metrics\<close> dereferences \<open>sq\<close>: on a nil pointer each panics.
\<close>

definition setddestinations ::
  "'db DataManager \<Rightarrow> string list \<Rightarrow> Account option \<Rightarrow> CDRStatsQueueTriggered option \<Rightarrow>
   Action \<Rightarrow> Actions \<Rightarrow> store \<Rightarrow> 'db \<Rightarrow> (error option \<times> 'db) outcome" where
  "setddestinations dm keys ub sq a acs st db =
     (case ub of
        None \<Rightarrow> Panic
      | Some acc \<Rightarrow>
          (case find hasDdcPrefix
                  (concat (map (\<lambda>b. DestinationIDs (balances st b))
                             (concat (List.map_filter (BalanceMap acc) keys)))) of
             None \<Rightarrow> Return (Some ErrNotFound, db)
           | Some ddcDestId \<Rightarrow>
               (case sq of
                  None \<Rightarrow> Panic
                | Some q \<Rightarrow>
                    let newDest = \<lparr>Id_d = ddcDestId, Prefixes = map fst (Metrics q)\<rparr> in
                    (case GetDestination dm ddcDestId db of
                       ((oldDest, Some e), db1) \<Rightarrow> Return (Some e, db1)
                     | ((oldDest, None), db1) \<Rightarrow>
                         (case SetDestination dm newDest db1 of
                            (Some e, db2) \<Rightarrow> Return (Some e, db2)
                          | (None, db2) \<Rightarrow>
                              (case CacheDataFromDB dm DESTINATION_PREFIX [ddcDestId] True db2 of
                                 (Some e, db3) \<Rightarrow> Return (Some e, db3)
                               | (None, db3) \<Rightarrow>
                                   (case oldDest of
                                      None \<Rightarrow> Return (None, db3)
                                    | Some od \<Rightarrow>
                                        Return (UpdateReverseDestination dm od newDest db3))))))))"

section \<open>\<open>removeAccountAction\<close> (action.go, lines 637-696)\<close>

text \<open>
  The loop of lines 668-679: each plan of the account is loaded, loses the account id
  from its membership set and is stored again; the first failure ends the loop.
\<close>

fun removeFromPlans :: "'db DataManager \<Rightarrow> string \<Rightarrow> string list \<Rightarrow> 'db \<Rightarrow> error option \<times> 'db" where
  "removeFromPlans dm accID [] db = (None, db)"
| "removeFromPlans dm accID (apID # rest) db =
     (case GetActionPlan dm apID db of
        (Inl e, db1) \<Rightarrow> (Some e, db1)
      | (Inr ap, db1) \<Rightarrow>
          (case SetActionPlan dm apID (ap\<lparr>AccountIDs := AccountIDs ap - {accID}\<rparr>) db1 of
             (Some e, db2) \<Rightarrow> (Some e, db2)
           | (None, db2) \<Rightarrow> removeFromPlans dm accID rest db2))"

text \<open>
  The guarded function after its membership lookup (lines 668-689): the loop, the reload
  of the plans in the cache, the removal of the account's membership index and the reload
  of that index, where a not-found error is let through. \<open>Error\<close> is \<open>err.Error()\<close>, the
  text of an error.
\<close>

definition cleanPlans ::
  "'db DataManager \<Rightarrow> (error \<Rightarrow> string) \<Rightarrow> string \<Rightarrow> string list \<Rightarrow> 'db \<Rightarrow> error option \<times> 'db" where
  "cleanPlans dm Error accID acntAPids db =
     (case removeFromPlans dm accID acntAPids db of
        (Some e, db1) \<Rightarrow> (Some e, db1)
      | (None, db1) \<Rightarrow>
          (case CacheDataFromDB dm ACTION_PLAN_PREFIX acntAPids True db1 of
             (Some e, db2) \<Rightarrow> (Some e, db2)
           | (None, db2) \<Rightarrow>
               (case RemAccountActionPlans dm accID db2 of
                  (Some e, db3) \<Rightarrow> (Some e, db3)
                | (None, db3) \<Rightarrow>
                    (case CacheDataFromDB dm AccountActionPlansPrefix [accID] True db3 of
                       (Some e, db4) \<Rightarrow>
                         if Error e \<noteq> Error ErrNotFound then (Some e, db4) else (None, db4)
                     | (None, db4) \<Rightarrow> (None, db4)))))"

text \<open>
  The function handed to \<open>guardian.Guardian.Guard\<close> (lines 662-691): the membership
  lookup, whose error is returned unless it is \<open>utils.ErrNotFound\<close>, and then the rest.
\<close>

definition guardedCleanup ::
  "'db DataManager \<Rightarrow> (error \<Rightarrow> string) \<Rightarrow> string \<Rightarrow> 'db \<Rightarrow> error option \<times> 'db" where
  "guardedCleanup dm Error accID db =
     (case GetAccountActionPlans dm accID db of
        ((acntAPids, err), db1) \<Rightarrow>
          if err \<noteq> None \<and> err \<noteq> Some ErrNotFound then (err, db1)
          else cleanPlans dm Error accID acntAPids db1)"

text \<open>
  \<open>removeAccountAction\<close>. \<open>utils.AccountKey\<close> and the JSON decoding of \<open>ExtraParameters\<close>
  into a tenant and an account are parameters. \<open>Guard\<close> runs the function under the lock
  named by the action-plan prefix and hands back what it returns; the lock itself is not
  modelled.
\<close>

definition removeAccountAction ::
  "'db DataManager \<Rightarrow> (string \<Rightarrow> string \<Rightarrow> string) \<Rightarrow> (string \<Rightarrow> error + string \<times> string) \<Rightarrow>
   (error \<Rightarrow> string) \<Rightarrow> Account option \<Rightarrow> CDRStatsQueueTriggered option \<Rightarrow> Action \<Rightarrow> Actions \<Rightarrow>
   'db \<Rightarrow> error option \<times> 'db" where
  "removeAccountAction dm AccountKey unmarshal Error ub sq a acs db =
     (case (case ub of
              Some acc \<Rightarrow> Inr (ID acc)
            | None \<Rightarrow>
                if ExtraParameters a \<noteq> []
                then (case unmarshal (ExtraParameters a) of
                        Inl e \<Rightarrow> Inl e
                      | Inr (tenant, account) \<Rightarrow> Inr (AccountKey tenant account))
                else Inr (AccountKey [] [])) of
        Inl e \<Rightarrow> (Some e, db)
      | Inr accID \<Rightarrow>
          if accID = [] then (Some ErrInvalidKey, db)
          else (case RemoveAccount dm accID db of
                  (Some e, db1) \<Rightarrow> (Some e, db1)
                | (None, db1) \<Rightarrow> guardedCleanup dm Error accID db1))"

section \<open>\<open>cgrRPCAction\<close> (action.go, lines 777-838)\<close>

record 'j RPCRequest =
  Address :: string
  Transport :: string
  Method :: string
  Attempts :: int
  Async :: bool
  Params :: "(string \<times> 'j) list"

text \<open>
  What \<open>utils.GetRpcParams\<close> returns for a method: the local object, and the input and
  output shapes, each an \<open>interface{}\<close> that is nil or holds a value.
\<close>

record ('c, 'v) RpcParamsValue =
  Object :: "'c option"
  InParam :: "'v option"
  OutParam :: "'v option"

text \<open>
  The collaborators of \<open>cgrRPCAction\<close>, none of them defined in action.go: the template
  engine (\<open>Parse\<close>, \<open>Execute\<close> on the account, the queue, the action and the action list),
  \<open>json.Unmarshal\<close>, the method registry, the client constructor, \<open>mapstructure.Decode\<close>
  (its error, and the input shape as it leaves it) and the remote call (its error, and
  the output as it leaves it). \<open>MetaInternal\<close> stands for \<open>utils.MetaInternal\<close>.
\<close>

record ('t, 'j, 'c, 'v) rpc_env =
  tmplParse :: "string \<Rightarrow> error + 't"
  tmplExecute :: "'t \<Rightarrow> Account option \<times> CDRStatsQueueTriggered option \<times> addr \<times> Actions \<times> store \<Rightarrow>
                  error + string"
  jsonUnmarshal :: "string \<Rightarrow> error + 'j RPCRequest"
  GetRpcParams :: "string \<Rightarrow> error + ('c, 'v) RpcParamsValue"
  NewRpcClient :: "string \<Rightarrow> int \<Rightarrow> string \<Rightarrow> error + 'c"
  MetaInternal :: string
  Decode :: "(string \<times> 'j) list \<Rightarrow> 'v option \<Rightarrow> error option \<times> 'v option"
  Call :: "'c \<Rightarrow> string \<Rightarrow> 'v option \<Rightarrow> 'v option \<Rightarrow> error option \<times> 'v option"

text \<open>
  What became of the remote method: not invoked, invoked and waited for, or invoked in a
  goroutine; with the method name and the input it was invoked with.
\<close>

datatype 'v invocation = NotInvoked | Invoked string "'v option" | InvokedAsync string "'v option"

text \<open>
  \<open>cgrRPCAction\<close>. Line 818 calls \<open>mapstructure.Decode(req.Params, in)\<close> and drops what it
  returns; the \<open>err\<close> tested at line 819 is the variable last assigned at line 802 or 808,
  which is nil when line 819 is reached. \<open>in\<close> is the interface value taken from the
  registry at line 815: decoding writes through it and does not make it nil. The type
  assertion of line 813 panics when the registry holds no connection.
\<close>

definition cgrRPCAction ::
  "('t, 'j, 'c, 'v) rpc_env \<Rightarrow> Account option \<Rightarrow> CDRStatsQueueTriggered option \<Rightarrow> addr \<Rightarrow>
   Actions \<Rightarrow> store \<Rightarrow> (error option \<times> 'v invocation) outcome" where
  "cgrRPCAction env account sq a acs st =
     (case tmplParse env (ExtraParameters (actions st a)) of
        Inl e \<Rightarrow> Return (Some e, NotInvoked)
      | Inr t \<Rightarrow>
     (case tmplExecute env t (account, sq, a, acs, st) of
        Inl e \<Rightarrow> Return (Some e, NotInvoked)
      | Inr processedExtraParam \<Rightarrow>
     (case jsonUnmarshal env processedExtraParam of
        Inl e \<Rightarrow> Return (Some e, NotInvoked)
      | Inr req \<Rightarrow>
     (case GetRpcParams env (Method req) of
        Inl e \<Rightarrow> Return (Some e, NotInvoked)
      | Inr params \<Rightarrow>
     (case (if Address req \<noteq> MetaInternal env
            then (case NewRpcClient env (Address req) (Attempts req) (Transport req) of
                    Inl e \<Rightarrow> Return (Inl e)
                  | Inr c \<Rightarrow> Return (Inr c))
            else (case Object params of None \<Rightarrow> Panic | Some c \<Rightarrow> Return (Inr c))) of
        Panic \<Rightarrow> Panic
      | Return (Inl e) \<Rightarrow> Return (Some e, NotInvoked)
      | Return (Inr client) \<Rightarrow>
          let err = (None :: error option);
              in_p = InParam params;
              out = OutParam params;
              decoded = snd (Decode env (Params req) in_p)
          in if err \<noteq> None then Return (err, NotInvoked)
             else if in_p = None then Return (Some ErrParserError, NotInvoked)
             else if \<not> Async req
             then Return (fst (Call env client (Method req) decoded out),
                          Invoked (Method req) decoded)
             else Return (None, InvokedAsync (Method req) decoded))))))"

section \<open>\<open>cdrLogAction\<close> (action.go, lines 142-346)\<close>

text \<open>The action types of lines 56-85 that \<open>cdrLogAction\<close> names.\<close>

definition DEBIT :: string where "DEBIT = ''*debit''"
definition DEBIT_RESET :: string where "DEBIT_RESET = ''*debit_reset''"
definition TOPUP :: string where "TOPUP = ''*topup''"
definition TOPUP_RESET :: string where "TOPUP_RESET = ''*topup_reset''"
definition CDRLOG :: string where "CDRLOG = ''*cdrlog''"

text \<open>
  The struct \<open>CDR\<close> is declared in another file of the package, and \<open>cdrLogAction\<close> writes most
  of its fields through reflection, by name. The record keeps the string fields and the
  \<open>float64\<close> fields as maps from the field name, next to the fields that line 311-315 set
  and that are of other types.
\<close>

record CDR =
  stringFields :: "string \<rightharpoonup> string"
  floatFields :: "string \<rightharpoonup> real"
  SetupTime :: string
  AnswerTime :: string
  Usage :: int
  ExtraFields :: "string \<rightharpoonup> string"

text \<open>
  What reflection finds under a name: a settable field of kind \<open>float64\<close>, of kind
  \<open>string\<close>, or of another kind; \<open>None\<close> when the struct has no settable field of that name.
\<close>

datatype field_kind = KFloat64 | KString | KOther

text \<open>
  The constants of package utils that \<open>cdrLogAction\<close> and \<open>parseTemplateValue\<close> name, as
  parameters.
\<close>

record cdr_consts =
  c_ToR :: string
  c_OriginHost :: string
  c_RequestType :: string
  c_Tenant :: string
  c_Account :: string
  c_Subject :: string
  c_COST :: string
  c_Category :: string
  c_META_PREPAID :: string

text \<open>
  The collaborators, none of them defined in action.go. \<open>'r\<close> is \<open>utils.RSRField\<close> with its
  \<open>Id\<close> and its \<open>Parse\<close>; \<open>ParseRSRFields\<close> and \<open>ParseRSRFieldsMustCompile\<close> are taken at
  the separator \<open>utils.INFIELD_SEP\<close>. \<open>fieldKind\<close> is the reflection on \<open>CDR\<close>. \<open>GenUUID\<close>
  gives the \<open>n\<close>-th identifier generated in the run. \<open>cdrStorage\<close> is the global of that
  name: nil, or a store of state \<open>'s\<close> with its \<open>SetCDR\<close>.
\<close>

record ('r, 's) cdr_env =
  rsrId :: "'r \<Rightarrow> string"
  rsrParse :: "'r \<Rightarrow> string \<Rightarrow> error + string"
  ParseRSRFields :: "string \<Rightarrow> error + 'r list"
  ParseRSRFieldsMustCompile :: "string \<Rightarrow> 'r list"
  unmarshalTemplate :: "string \<Rightarrow> error + (string \<times> string) list"
  NewTAFromAccountKey :: "string \<Rightarrow> error + string \<times> string"
  FormatFloat :: "real \<Rightarrow> string"
  ParseFloat :: "string \<Rightarrow> real option"
  fieldKind :: "string \<Rightarrow> field_kind option"
  timeNow :: string
  GenUUID :: "nat \<Rightarrow> string"
  Sha1 :: "string \<Rightarrow> string \<Rightarrow> string"
  cdrStorage :: "(CDR \<Rightarrow> 's \<Rightarrow> error option \<times> 's) option"
  marshalCDRs :: "CDR list \<Rightarrow> string"

text \<open>
  The \<open>switch\<close> of \<open>parseTemplateValue\<close> (lines 154-274): the value a field of the given id
  is parsed from. \<open>dta\<close> is the tenant and account of lines 144-150, \<open>bf\<close> the action's
  balance filter, which \<open>cdrLogAction\<close> has checked not to be nil. \<open>acnt.ID\<close> in the first
  case dereferences the account, which may be nil here.
\<close>

definition templateSource ::
  "cdr_consts \<Rightarrow> ('r, 's) cdr_env \<Rightarrow> Account option \<Rightarrow> string \<times> string \<Rightarrow> Action \<Rightarrow>
   BalanceFilter \<Rightarrow> string \<Rightarrow> string outcome" where
  "templateSource k env acnt dta action bf fid =
     (if fid = ''AccountID'' then (case acnt of None \<Rightarrow> Panic | Some ac \<Rightarrow> Return (ID ac))
      else if fid = ''Directions'' then Return (Directions_bf bf)
      else if fid = c_Tenant k then Return (fst dta)
      else if fid = c_Account k then Return (snd dta)
      else if fid = ''ActionID'' then Return (Id_a action)
      else if fid = ''ActionType'' then Return (ActionType action)
      else if fid = ''ActionValue'' then Return (FormatFloat env (Value_bf bf))
      else if fid = ''BalanceType'' then Return (Type_bf bf)
      else if fid = ''BalanceUUID'' then Return (Uuid_bf bf)
      else if fid = ''BalanceID'' then Return (ID_bf bf)
      else if fid = ''BalanceValue'' then Return (FormatFloat env (balanceValue action))
      else if fid = ''DestinationIDs'' then Return (DestinationIDs_bf bf)
      else if fid = ''ExtraParameters'' then Return (ExtraParameters action)
      else if fid = ''RatingSubject'' then Return (RatingSubject_bf bf)
      else if fid = c_Category k then Return (Categories_bf bf)
      else if fid = ''SharedGroups'' then Return (SharedGroups_bf bf)
      else Return [])"

text \<open>
  The loop of \<open>parseTemplateValue\<close> over the fields, with the value parsed so far: a field
  whose \<open>Parse\<close> fails is logged and adds nothing.
\<close>

fun parseFields ::
  "cdr_consts \<Rightarrow> ('r, 's) cdr_env \<Rightarrow> Account option \<Rightarrow> string \<times> string \<Rightarrow> Action \<Rightarrow>
   BalanceFilter \<Rightarrow> 'r list \<Rightarrow> string \<Rightarrow> string outcome" where
  "parseFields k env acnt dta action bf [] parsedValue = Return parsedValue"
| "parseFields k env acnt dta action bf (rsrFld # rest) parsedValue =
     (case templateSource k env acnt dta action bf (rsrId env rsrFld) of
        Panic \<Rightarrow> Panic
      | Return src \<Rightarrow>
          (case rsrParse env rsrFld src of
             Inl e \<Rightarrow> parseFields k env acnt dta action bf rest parsedValue
           | Inr parsed \<Rightarrow> parseFields k env acnt dta action bf rest (parsedValue @ parsed)))"

text \<open>\<open>parseTemplateValue\<close> (lines 142-277)\<close>

definition parseTemplateValue ::
  "cdr_consts \<Rightarrow> ('r, 's) cdr_env \<Rightarrow> 'r list \<Rightarrow> Account option \<Rightarrow> Action \<Rightarrow> BalanceFilter \<Rightarrow>
   string outcome" where
  "parseTemplateValue k env rsrFlds acnt action bf =
     (let dta = (case acnt of
                   None \<Rightarrow> ([], [])
                 | Some ac \<Rightarrow>
                     (case NewTAFromAccountKey env (ID ac) of Inl e \<Rightarrow> ([], []) | Inr ta \<Rightarrow> ta))
      in parseFields k env acnt dta action bf rsrFlds [])"

text \<open>
  Lines 319-333: the parsed value is written to the field of the CDR named by the key,
  or to \<open>ExtraFields\<close> when there is no such field; a value that does not parse as a
  number leaves a \<open>float64\<close> field as it is, and a field of another kind is not written.
\<close>

definition setField :: "('r, 's) cdr_env \<Rightarrow> string \<Rightarrow> string \<Rightarrow> CDR \<Rightarrow> CDR" where
  "setField env key parsedValue cdr =
     (case fieldKind env key of
        Some KFloat64 \<Rightarrow>
          (case ParseFloat env parsedValue of
             None \<Rightarrow> cdr
           | Some v \<Rightarrow> cdr\<lparr>floatFields := (floatFields cdr)(key \<mapsto> v)\<rparr>)
      | Some KString \<Rightarrow> cdr\<lparr>stringFields := (stringFields cdr)(key \<mapsto> parsedValue)\<rparr>
      | Some KOther \<Rightarrow> cdr
      | None \<Rightarrow> cdr\<lparr>ExtraFields := (ExtraFields cdr)(key \<mapsto> parsedValue)\<rparr>)"

text \<open>
  The loop of lines 317-334 over the template. The template is a Go map; the list gives
  its entries in the order in which \<open>range\<close> visits them.
\<close>

fun fillCDR ::
  "cdr_consts \<Rightarrow> ('r, 's) cdr_env \<Rightarrow> Account option \<Rightarrow> Action \<Rightarrow> BalanceFilter \<Rightarrow>
   (string \<times> 'r list) list \<Rightarrow> CDR \<Rightarrow> CDR outcome" where
  "fillCDR k env acc action bf [] cdr = Return cdr"
| "fillCDR k env acc action bf ((key, rsrFlds) # rest) cdr =
     (case parseTemplateValue k env rsrFlds acc action bf of
        Panic \<Rightarrow> Panic
      | Return parsedValue \<Rightarrow> fillCDR k env acc action bf rest (setField env key parsedValue cdr))"

text \<open>
  Lines 311-334: the CDR synthesized for one action, with the \<open>n\<close>-th generated
  identifier as its \<open>OriginID\<close>.
\<close>

definition synthesizeCDR ::
  "cdr_consts \<Rightarrow> ('r, 's) cdr_env \<Rightarrow> (string \<times> 'r list) list \<Rightarrow> Account option \<Rightarrow> Action \<Rightarrow>
   BalanceFilter \<Rightarrow> nat \<Rightarrow> CDR outcome" where
  "synthesizeCDR k env template acc action bf n =
     fillCDR k env acc action bf template
       \<lparr>stringFields = [''RunID'' \<mapsto> ActionType action, ''Source'' \<mapsto> CDRLOG,
                        ''OriginID'' \<mapsto> GenUUID env n,
                        ''CGRID'' \<mapsto> Sha1 env (GenUUID env n) (timeNow env)],
        floatFields = Map.empty,
        SetupTime = timeNow env, AnswerTime = timeNow env, Usage = 1,
        ExtraFields = Map.empty\<rparr>"

text \<open>Line 307-308: the siblings that are logged.\<close>

definition logged :: "store \<Rightarrow> addr \<Rightarrow> bool" where
  "logged st p \<longleftrightarrow>
     ActionType (actions st p) \<in> set [DEBIT, DEBIT_RESET, TOPUP, TOPUP_RESET] \<and>
     Balance (actions st p) \<noteq> None"

text \<open>
  The loop of lines 306-342 over the siblings that are left, with the CDRs built so far,
  the number of identifiers generated and the state of the CDR store. It ends early when
  \<open>SetCDR\<close> fails; the CDR that failed to be stored has been appended by then.
\<close>

fun cdrLoop ::
  "cdr_consts \<Rightarrow> ('r, 's) cdr_env \<Rightarrow> (string \<times> 'r list) list \<Rightarrow> Account option \<Rightarrow> store \<Rightarrow>
   Actions \<Rightarrow> CDR list \<Rightarrow> 's \<Rightarrow> (error option \<times> CDR list \<times> 's) outcome" where
  "cdrLoop k env template acc st [] cdrs s = Return (None, cdrs, s)"
| "cdrLoop k env template acc st (p # rest) cdrs s =
     (if \<not> logged st p then cdrLoop k env template acc st rest cdrs s
      else (case Balance (actions st p) of
              None \<Rightarrow> cdrLoop k env template acc st rest cdrs s
            | Some b \<Rightarrow>
                (case synthesizeCDR k env template acc (actions st p) (filters st b) (length cdrs) of
                   Panic \<Rightarrow> Panic
                 | Return cdr \<Rightarrow>
                     (case cdrStorage env of
                        None \<Rightarrow> cdrLoop k env template acc st rest (cdrs @ [cdr]) s
                      | Some SetCDR \<Rightarrow>
                          (case SetCDR cdr s of
                             (Some e, s1) \<Rightarrow> Return (Some e, cdrs @ [cdr], s1)
                           | (None, s1) \<Rightarrow> cdrLoop k env template acc st rest (cdrs @ [cdr]) s1)))))"

text \<open>Lines 296-301: the entries of \<open>ExtraParameters\<close> overwrite the default template.\<close>

fun overwriteTemplate ::
  "('r, 's) cdr_env \<Rightarrow> (string \<times> string) list \<Rightarrow> (string \<times> 'r list) list \<Rightarrow>
   error + (string \<times> 'r list) list" where
  "overwriteTemplate env [] defaultTemplate = Inr defaultTemplate"
| "overwriteTemplate env ((field, rsr) # rest) defaultTemplate =
     (case ParseRSRFields env rsr of
        Inl e \<Rightarrow> Inl e
      | Inr flds \<Rightarrow> overwriteTemplate env rest (AList.update field flds defaultTemplate))"

text \<open>Lines 280-288: the default template, its entries entered one after the other.\<close>

definition defaultTemplate :: "cdr_consts \<Rightarrow> ('r, 's) cdr_env \<Rightarrow> (string \<times> 'r list) list" where
  "defaultTemplate k env =
     AList.update (c_COST k) (ParseRSRFieldsMustCompile env ''ActionValue'')
    (AList.update (c_Subject k) (ParseRSRFieldsMustCompile env (c_Account k))
    (AList.update (c_Account k) (ParseRSRFieldsMustCompile env (c_Account k))
    (AList.update (c_Tenant k) (ParseRSRFieldsMustCompile env (c_Tenant k))
    (AList.update (c_RequestType k) (ParseRSRFieldsMustCompile env (''^'' @ c_META_PREPAID k))
    (AList.update (c_OriginHost k) (ParseRSRFieldsMustCompile env ''^127.0.0.1'')
    (AList.update (c_ToR k) (ParseRSRFieldsMustCompile env ''BalanceType'') []))))))"

text \<open>
  \<open>cdrLogAction\<close> (lines 279-346). The result is the error returned, the CDRs synthesized
  when it returns, the heap (on a return without error, \<open>a.ExpirationString\<close> holds the
  CDRs as JSON) and the state of the CDR store.
\<close>

definition cdrLogAction ::
  "cdr_consts \<Rightarrow> ('r, 's) cdr_env \<Rightarrow> Account option \<Rightarrow> CDRStatsQueueTriggered option \<Rightarrow> addr \<Rightarrow>
   Actions \<Rightarrow> store \<Rightarrow> 's \<Rightarrow> (error option \<times> CDR list \<times> store \<times> 's) outcome" where
  "cdrLogAction k env acc sq a acs st s =
     (case (if ExtraParameters (actions st a) \<noteq> []
            then (case unmarshalTemplate env (ExtraParameters (actions st a)) of
                    Inl e \<Rightarrow> Inl e
                  | Inr template \<Rightarrow> overwriteTemplate env template (defaultTemplate k env))
            else Inr (defaultTemplate k env)) of
        Inl e \<Rightarrow> Return (Some e, [], st, s)
      | Inr template \<Rightarrow>
          (case cdrLoop k env template acc st acs [] s of
             Panic \<Rightarrow> Panic
           | Return (Some e, cdrs, s1) \<Rightarrow> Return (Some e, cdrs, st, s1)
           | Return (None, cdrs, s1) \<Rightarrow>
               Return (None, cdrs,
                       st\<lparr>actions := (actions st)
                             (a := (actions st a)\<lparr>ExpirationString := marshalCDRs env cdrs\<rparr>)\<rparr>,
                       s1)))"

section \<open>Cloning and the top-up handlers\<close>

text \<open>
  Modelled from the spec: what the gob round trip of \<open>utils.Clone\<close> (package utils, not
  in action.go) does to an optional flag of a balance filter. The spec has a naive copy
  turn an explicit \<open>false\<close> into an absent value, and the comment at line 906 of action.go
  says it of gob: a flag that points to \<open>false\<close> comes back as a nil pointer.
\<close>

definition gobFlag :: "bool option \<Rightarrow> bool option" where
  "gobFlag f = (if f = Some False then None else f)"

definition gobFilter :: "BalanceFilter \<Rightarrow> BalanceFilter" where
  "gobFilter bf = bf\<lparr>Disabled_bf := gobFlag (Disabled_bf bf), Blocker_bf := gobFlag (Blocker_bf bf)\<rparr>"

text \<open>
  Modelled from the spec: \<open>utils.Clone\<close> on an action (package utils, not in action.go),
  the gob round trip behind \<open>Action.Clone\<close> and \<open>Actions.Clone\<close>. The spec calls the result
  a deep clone, not shared with the original: the copy of the action is a new object, and
  so is the copy of its balance filter, which is the filter as the round trip leaves it
  (\<open>gobFilter\<close>). gob transmits exported fields only, so the unexported \<open>balanceValue\<close> is
  zero in the copy.
\<close>

definition utils_Clone :: "addr \<Rightarrow> store \<Rightarrow> addr \<times> store" where
  "utils_Clone a st =
     (let src = actions st a; c = nextAction st in
      case Balance src of
        None \<Rightarrow>
          (c, st\<lparr>actions := (actions st)(c := src\<lparr>balanceValue := 0\<rparr>), nextAction := Suc c\<rparr>)
      | Some b \<Rightarrow>
          let f = nextFilter st in
          (c, st\<lparr>actions := (actions st)(c := src\<lparr>Balance := Some f, balanceValue := 0\<rparr>),
                 nextAction := Suc c,
                 filters := (filters st)(f := gobFilter (filters st b)),
                 nextFilter := Suc f\<rparr>))"

text \<open>\<open>func (a *Action) Clone() *Action\<close> (lines 87-91)\<close>

definition Action_Clone :: "addr \<Rightarrow> store \<Rightarrow> addr \<times> store" where
  "Action_Clone a st = utils_Clone a st"

text \<open>
  Modelled from the spec: \<open>utils.Clone\<close> on a slice of actions (package utils, not in
  action.go) copies the actions one by one, in order.
\<close>

fun utils_Clone_slice :: "Actions \<Rightarrow> store \<Rightarrow> Actions \<times> store" where
  "utils_Clone_slice [] st = ([], st)"
| "utils_Clone_slice (a # as) st =
     (let (c, st1) = utils_Clone a st; (cs, st2) = utils_Clone_slice as st1 in (c # cs, st2))"

text \<open>
  The target of an assignment \<open>cln[i].Balance.F = ...\<close>: the address of the filter, or
  \<open>None\<close> where the assignment panics (index out of range, or a nil \<open>Balance\<close>).
\<close>

definition clonedFilter :: "Actions \<Rightarrow> nat \<Rightarrow> store \<Rightarrow> addr option" where
  "clonedFilter cln i st = (if i < length cln then Balance (actions st (cln ! i)) else None)"

text \<open>
  The loop of \<open>Actions.Clone\<close> (lines 906-915), at index \<open>i\<close> for the actions of the
  original that are left: a flag that is explicitly false in the original is set to a
  fresh pointer to \<open>false\<close> in the clone.
\<close>

fun fixFlags :: "nat \<Rightarrow> Actions \<Rightarrow> Actions \<Rightarrow> store \<Rightarrow> store outcome" where
  "fixFlags i [] cln st = Return st"
| "fixFlags i (act # rest) cln st =
     (case Balance (actions st act) of
        None \<Rightarrow> fixFlags (Suc i) rest cln st
      | Some b \<Rightarrow>
          (case (if Disabled_bf (filters st b) = Some False
                 then (case clonedFilter cln i st of
                         None \<Rightarrow> Panic
                       | Some cb \<Rightarrow>
                           Return (st\<lparr>filters := (filters st)
                                      (cb := (filters st cb)\<lparr>Disabled_bf := Some False\<rparr>)\<rparr>))
                 else Return st) of
             Panic \<Rightarrow> Panic
           | Return st1 \<Rightarrow>
               (case (if Blocker_bf (filters st1 b) = Some False
                      then (case clonedFilter cln i st1 of
                              None \<Rightarrow> Panic
                            | Some cb \<Rightarrow>
                                Return (st1\<lparr>filters := (filters st1)
                                          (cb := (filters st1 cb)\<lparr>Blocker_bf := Some False\<rparr>)\<rparr>))
                      else Return st1) of
                  Panic \<Rightarrow> Panic
                | Return st2 \<Rightarrow> fixFlags (Suc i) rest cln st2)))"

text \<open>
  \<open>func (apl Actions) Clone()\<close> (lines 901-917). The gob round trip of a well-formed
  slice does not fail, so the error branch of line 903 is not taken.
\<close>

definition Actions_Clone :: "Actions \<Rightarrow> store \<Rightarrow> (Actions \<times> store) outcome" where
  "Actions_Clone apl st =
     (let (cln, st1) = utils_Clone_slice apl st in
      case fixFlags 0 apl cln st1 of
        Panic \<Rightarrow> Panic
      | Return st2 \<Rightarrow> Return (cln, st2))"

text \<open>\<open>genericMakeNegative\<close> (lines 448-452)\<close>

definition genericMakeNegative :: "addr \<Rightarrow> store \<Rightarrow> store" where
  "genericMakeNegative a st =
     (case Balance (actions st a) of
        None \<Rightarrow> st
      | Some b \<Rightarrow>
          if Value_bf (filters st b) > 0
          then st\<lparr>filters := (filters st)
                    (b := (filters st b)\<lparr>Value_bf := - Value_bf (filters st b)\<rparr>)\<rparr>
          else st)"

text \<open>
  \<open>Account.debitBalanceAction\<close> belongs to the account model, not to action.go, and is
  a parameter. It is handed the account with its balances and the action it is to
  debit with, and hands back its error, the account and the balances as it leaves them,
  the \<open>balanceValue\<close> it records on the action, and the action's balance filter as it
  leaves it.
\<close>

record debit_result =
  dbErr :: "error option"
  dbAccount :: Account
  dbBalances :: "addr \<Rightarrow> Balance"
  dbBalanceValue :: real
  dbFilter :: "BalanceFilter option"

type_synonym debitBalanceAction =
  "Account \<Rightarrow> (addr \<Rightarrow> Balance) \<Rightarrow> Action \<Rightarrow> BalanceFilter option \<Rightarrow> bool \<Rightarrow> bool \<Rightarrow> debit_result"

text \<open>The filter an action points to, as the callee reads it.\<close>

definition filterOf :: "store \<Rightarrow> addr \<Rightarrow> BalanceFilter option" where
  "filterOf st a = map_option (filters st) (Balance (actions st a))"

text \<open>The call \<open>ub.debitBalanceAction(a, reset, resetIfNegative)\<close> on the heap.\<close>

definition callDebit ::
  "debitBalanceAction \<Rightarrow> Account \<Rightarrow> addr \<Rightarrow> bool \<Rightarrow> bool \<Rightarrow> store \<Rightarrow>
   error option \<times> Account option \<times> store" where
  "callDebit debit acc a reset resetIfNegative st =
     (let r = debit acc (balances st) (actions st a) (filterOf st a) reset resetIfNegative;
          st1 = st\<lparr>balances := dbBalances r,
                   actions := (actions st)(a := (actions st a)\<lparr>balanceValue := dbBalanceValue r\<rparr>)\<rparr>;
          st2 = (case (Balance (actions st a), dbFilter r) of
                   (Some b, Some bf) \<Rightarrow> st1\<lparr>filters := (filters st1)(b := bf)\<rparr>
                 | _ \<Rightarrow> st1)
      in (dbErr r, Some (dbAccount r), st2))"

text \<open>\<open>genericDebit\<close> (lines 454-462)\<close>

definition genericDebit ::
  "debitBalanceAction \<Rightarrow> Account option \<Rightarrow> addr \<Rightarrow> bool \<Rightarrow> store \<Rightarrow>
   error option \<times> Account option \<times> store" where
  "genericDebit debit ub a reset st =
     (case ub of
        None \<Rightarrow> (Some NilAccount, None, st)
      | Some acc \<Rightarrow> callDebit debit acc a reset False st)"

text \<open>\<open>a.balanceValue = c.balanceValue\<close>\<close>

definition copyBalanceValue :: "addr \<Rightarrow> addr \<Rightarrow> store \<Rightarrow> store" where
  "copyBalanceValue a c st =
     st\<lparr>actions := (actions st)(a := (actions st a)\<lparr>balanceValue := balanceValue (actions st c)\<rparr>)\<rparr>"

text \<open>\<open>topupAction\<close> (lines 409-418) and \<open>topupResetAction\<close> (lines 395-407)\<close>

definition topupAction ::
  "debitBalanceAction \<Rightarrow> Account option \<Rightarrow> CDRStatsQueueTriggered option \<Rightarrow> addr \<Rightarrow>
   Actions \<Rightarrow> store \<Rightarrow> error option \<times> Account option \<times> store" where
  "topupAction debit ub sq a acs st =
     (case ub of
        None \<Rightarrow> (Some NilAccount, None, st)
      | Some acc \<Rightarrow>
          let (c, st1) = Action_Clone a st;
              st2 = genericMakeNegative c st1;
              (err, ub', st3) = genericDebit debit (Some acc) c False st2
          in (err, ub', copyBalanceValue a c st3))"

definition topupResetAction ::
  "debitBalanceAction \<Rightarrow> Account option \<Rightarrow> CDRStatsQueueTriggered option \<Rightarrow> addr \<Rightarrow>
   Actions \<Rightarrow> store \<Rightarrow> error option \<times> Account option \<times> store" where
  "topupResetAction debit ub sq a acs st =
     (case ub of
        None \<Rightarrow> (Some NilAccount, None, st)
      | Some acc \<Rightarrow>
          let (c, st1) = Action_Clone a st;
              st2 = genericMakeNegative c st1;
              (err, ub', st3) = genericDebit debit (Some acc) c True st2
          in (err, ub', copyBalanceValue a c st3))"

section \<open>Handlers that work on the balance buckets\<close>

text \<open>
  \<open>Balance.MatchFilter\<close> belongs to the account model, not to action.go, and is a
  parameter: a predicate of the balance, the filter (nil or not) and the two flags
  \<open>skipIds\<close> and \<open>skipExpiry\<close>.
\<close>

type_synonym MatchFilter = "Balance \<Rightarrow> BalanceFilter option \<Rightarrow> bool \<Rightarrow> bool \<Rightarrow> bool"

text \<open>\<open>a.Balance.GetType()\<close>: the empty string on a nil filter.\<close>

definition getType :: "store \<Rightarrow> addr \<Rightarrow> string" where
  "getType st a = (case filterOf st a of None \<Rightarrow> [] | Some bf \<Rightarrow> Type_bf bf)"

text \<open>
  The loop of \<open>removeBalanceAction\<close> (lines 707-715), from index \<open>i\<close> on. A match at \<open>i\<close>
  overwrites \<open>bChain[i]\<close> with the last element, drops the last element and stays at \<open>i\<close>
  (the source steps \<open>i\<close> back and the loop header steps it forward again).
\<close>

function removeLoop ::
  "(Balance \<Rightarrow> bool) \<Rightarrow> (addr \<Rightarrow> Balance) \<Rightarrow> addr list \<Rightarrow> nat \<Rightarrow> bool \<Rightarrow> addr list \<times> bool" where
  "removeLoop m bals bChain i found =
     (if i < length bChain
      then (if m (bals (bChain ! i))
            then removeLoop m bals (butlast (bChain[i := last bChain])) i True
            else removeLoop m bals bChain (Suc i) found)
      else (bChain, found))"
  by pat_completeness auto
termination
  by (relation "measure (\<lambda>(m, bals, bChain, i, found). 2 * length bChain - i)") auto

declare removeLoop.simps [simp del]

text \<open>\<open>removeBalanceAction\<close> (lines 698-721)\<close>

definition removeBalanceAction ::
  "MatchFilter \<Rightarrow> Account option \<Rightarrow> CDRStatsQueueTriggered option \<Rightarrow> addr \<Rightarrow> Actions \<Rightarrow>
   store \<Rightarrow> error option \<times> Account option" where
  "removeBalanceAction MatchFilter ub sq a acs st =
     (case ub of
        None \<Rightarrow> (Some (NilAccountFor (actions st a)), None)
      | Some acc \<Rightarrow>
          (case BalanceMap acc (getType st a) of
             None \<Rightarrow> (Some ErrNotFound, Some acc)
           | Some bChain \<Rightarrow>
               let (bChain', found) =
                     removeLoop (\<lambda>b. MatchFilter b (filterOf st a) False False) (balances st)
                       bChain 0 False;
                   acc' = acc\<lparr>BalanceMap := (BalanceMap acc)(getType st a \<mapsto> bChain')\<rparr>
               in if \<not> found then (Some ErrNotFound, Some acc') else (None, Some acc')))"

text \<open>
  The loop of \<open>transferMonetaryDefaultAction\<close> (lines 740-749) over the bucket; \<open>d\<close> is the
  pointer \<open>defaultBalance\<close>. The two assignments are two writes through pointers, in the
  order of the source.
\<close>

fun transferLoop ::
  "(Balance \<Rightarrow> bool) \<Rightarrow> addr \<Rightarrow> addr list \<Rightarrow> (addr \<Rightarrow> Balance) \<Rightarrow> (addr \<Rightarrow> Balance)" where
  "transferLoop m d [] bals = bals"
| "transferLoop m d (p # rest) bals =
     transferLoop m d rest
       (if Uuid (bals p) \<noteq> Uuid (bals d) \<and> ID_b (bals p) \<noteq> ID_b (bals d) \<and> m (bals p)
        then (if Value (bals p) > 0
              then let bals1 = bals(d := (bals d)\<lparr>Value := Value (bals d) + Value (bals p)\<rparr>)
                   in bals1(p := (bals1 p)\<lparr>Value := 0\<rparr>)
              else bals)
        else bals)"

text \<open>
  \<open>transferMonetaryDefaultAction\<close> (lines 730-751). \<open>Account.GetDefaultMoneyBalance\<close>
  belongs to the account model, not to action.go, and is a parameter: it returns
  the pointer to the default balance, and the account and the heap as it leaves them (it
  may add a balance). \<open>MONETARY\<close> stands for the constant \<open>utils.MONETARY\<close>.
\<close>

definition transferMonetaryDefaultAction ::
  "(Account \<Rightarrow> store \<Rightarrow> addr \<times> Account \<times> store) \<Rightarrow> MatchFilter \<Rightarrow> string \<Rightarrow>
   Account option \<Rightarrow> CDRStatsQueueTriggered option \<Rightarrow> addr \<Rightarrow> Actions \<Rightarrow> store \<Rightarrow>
   error option \<times> Account option \<times> store" where
  "transferMonetaryDefaultAction GetDefaultMoneyBalance MatchFilter MONETARY acc sq a acs st =
     (case acc of
        None \<Rightarrow> (Some ErrAccountNotFound, None, st)
      | Some ac \<Rightarrow>
          (case BalanceMap ac MONETARY of
             None \<Rightarrow> (Some ErrNotFound, Some ac, st)
           | Some _ \<Rightarrow>
               let (defaultBalance, ac1, st1) = GetDefaultMoneyBalance ac st;
                   bChain = (case BalanceMap ac1 MONETARY of None \<Rightarrow> [] | Some c \<Rightarrow> c)
               in (None, Some ac1,
                   st1\<lparr>balances :=
                         transferLoop (\<lambda>b. MatchFilter b (filterOf st1 a) False False)
                           defaultBalance bChain (balances st1)\<rparr>)))"

text \<open>
  For the proofs about cloning: \<open>filterCount st xs\<close> counts the actions of \<open>xs\<close> that carry
  a balance filter, which is the number of filters cloning \<open>xs\<close> allocates, and
  \<open>sliceCloned s0 xs cs s1\<close> describes the heap \<open>s1\<close> and the clone \<open>cs\<close> that
  \<open>utils_Clone_slice\<close> makes of \<open>xs\<close> on the heap \<open>s0\<close>.
\<close>

definition hasBalance :: "store \<Rightarrow> addr \<Rightarrow> bool" where
  "hasBalance st a = (Balance (actions st a) \<noteq> None)"

definition filterCount :: "store \<Rightarrow> Actions \<Rightarrow> nat" where
  "filterCount st xs = length (filter (hasBalance st) xs)"

definition sliceCloned :: "store \<Rightarrow> Actions \<Rightarrow> Actions \<Rightarrow> store \<Rightarrow> bool" where
  "sliceCloned s0 xs cs s1 \<longleftrightarrow>
     cs = [nextAction s0 ..< nextAction s0 + length xs] \<and>
     nextAction s1 = nextAction s0 + length xs \<and>
     nextFilter s1 = nextFilter s0 + filterCount s0 xs \<and>
     balances s1 = balances s0 \<and>
     (\<forall>p<nextAction s0. actions s1 p = actions s0 p) \<and>
     (\<forall>q<nextFilter s0. filters s1 q = filters s0 q) \<and>
     (\<forall>i<length xs.
        actions s1 (nextAction s0 + i) =
          (actions s0 (xs ! i))\<lparr>Balance := map_option (\<lambda>_. nextFilter s0 + filterCount s0 (take i xs))
                                                (Balance (actions s0 (xs ! i))),
                                 balanceValue := 0\<rparr> \<and>
        (\<forall>b. Balance (actions s0 (xs ! i)) = Some b \<longrightarrow>
           filters s1 (nextFilter s0 + filterCount s0 (take i xs)) = gobFilter (filters s0 b)))"

text \<open>
  For the proofs about the transfer: the test of lines 741-744 on the balance at \<open>p\<close>.
\<close>

definition transferable :: "(Balance \<Rightarrow> bool) \<Rightarrow> addr \<Rightarrow> (addr \<Rightarrow> Balance) \<Rightarrow> addr \<Rightarrow> bool" where
  "transferable m d bals p \<longleftrightarrow>
     Uuid (bals p) \<noteq> Uuid (bals d) \<and> ID_b (bals p) \<noteq> ID_b (bals d) \<and> m (bals p) \<and> 0 < Value (bals p)"

section \<open>Example inputs\<close>

text \<open>The zero values of the structs, and an empty heap.\<close>

definition zeroAction :: Action where
  "zeroAction = \<lparr>Id_a = [], ActionType = [], ExtraParameters = [], Filter_a = [],
     ExpirationString = [], Weight = 0, Balance = None, balanceValue = 0\<rparr>"

definition zeroFilter :: BalanceFilter where
  "zeroFilter = \<lparr>Uuid_bf = [], ID_bf = [], Type_bf = [], Value_bf = 0, Directions_bf = [],
     DestinationIDs_bf = [], RatingSubject_bf = [], Categories_bf = [], SharedGroups_bf = [],
     Disabled_bf = None, Blocker_bf = None\<rparr>"

definition zeroBalance :: Balance where
  "zeroBalance = \<lparr>Uuid = [], ID_b = [], Value = 0, DestinationIDs = []\<rparr>"

definition emptyStore :: store where
  "emptyStore = \<lparr>actions = (\<lambda>_. zeroAction), nextAction = 0, filters = (\<lambda>_. zeroFilter),
     nextFilter = 0, balances = (\<lambda>_. zeroBalance)\<rparr>"

definition topupStore :: store where
  "topupStore = emptyStore\<lparr>
     actions := (\<lambda>_. zeroAction)(0 := zeroAction\<lparr>ActionType := ''*topup'', Balance := Some 0\<rparr>),
     nextAction := 1,
     filters := (\<lambda>_. zeroFilter)(0 := zeroFilter\<lparr>Type_bf := ''*monetary'', Value_bf := 5, Disabled_bf := Some False\<rparr>),
     nextFilter := 1\<rparr>"

definition someAccount :: Account where
  "someAccount = \<lparr>ID = ''cgrates.org:1001'', BalanceMap = Map.empty, AllowNegative = False, Disabled = False\<rparr>"

text \<open>A debit that records the value of the filter it is given and changes nothing else.\<close>

definition recordingDebit :: debitBalanceAction where
  "recordingDebit acc bals act bf reset rin =
     \<lparr>dbErr = None, dbAccount = acc, dbBalances = bals,
      dbBalanceValue = (case bf of None \<Rightarrow> 0 | Some f \<Rightarrow> Value_bf f), dbFilter = bf\<rparr>"


text \<open>
  A heap with two actions: a top-up whose filter is explicitly not disabled and leaves
  \<open>Blocker\<close> absent, and a log action without a filter.
\<close>

definition twoActionStore :: store where
  "twoActionStore = emptyStore\<lparr>
     actions := (\<lambda>_. zeroAction)
       (0 := zeroAction\<lparr>ActionType := ''*topup'', Weight := 10, Balance := Some 0\<rparr>,
        1 := zeroAction\<lparr>ActionType := ''*log''\<rparr>),
     nextAction := 2,
     filters := (\<lambda>_. zeroFilter)
       (0 := zeroFilter\<lparr>Type_bf := ''*monetary'', Value_bf := 5, Disabled_bf := Some False\<rparr>),
     nextFilter := 1\<rparr>"

text \<open>
  A matcher in the manner of \<open>MatchFilter\<close>: a nil filter and a filter without an id
  match every balance, a filter with an id matches the balances of that id.
\<close>

definition matchID :: MatchFilter where
  "matchID b f skipIds skipExpiry =
     (case f of None \<Rightarrow> True | Some bf \<Rightarrow> ID_bf bf = [] \<or> ID_b b = ID_bf bf)"

text \<open>
  An account with a monetary bucket of three balances, the first and the last with the id
  \<open>bonus\<close>, and a \<open>remove_balance\<close> action whose filter asks for that id.
\<close>

definition bucketStore :: store where
  "bucketStore = emptyStore\<lparr>
     actions := (\<lambda>_. zeroAction)(0 := zeroAction\<lparr>ActionType := ''*remove_balance'', Balance := Some 0\<rparr>),
     nextAction := 1,
     filters := (\<lambda>_. zeroFilter)(0 := zeroFilter\<lparr>ID_bf := ''bonus'', Type_bf := ''*monetary''\<rparr>),
     nextFilter := 1,
     balances := (\<lambda>_. zeroBalance)
       (10 := zeroBalance\<lparr>Uuid := ''u0'', ID_b := ''bonus'', Value := 1\<rparr>,
        11 := zeroBalance\<lparr>Uuid := ''u1'', ID_b := ''main'', Value := 2\<rparr>,
        12 := zeroBalance\<lparr>Uuid := ''u2'', ID_b := ''bonus'', Value := 3\<rparr>,
        13 := zeroBalance\<lparr>Uuid := ''u3'', ID_b := ''extra'', Value := 4\<rparr>)\<rparr>"

definition bucketAccount :: Account where
  "bucketAccount = someAccount\<lparr>BalanceMap := [''*monetary'' \<mapsto> [10, 11, 12, 13]]\<rparr>"

text \<open>
  The default balance found at a known address, as \<open>GetDefaultMoneyBalance\<close> returns it
  when the bucket holds one.
\<close>

definition defaultAt :: "addr \<Rightarrow> Account \<Rightarrow> store \<Rightarrow> addr \<times> Account \<times> store" where
  "defaultAt d ac st = (d, ac, st)"

text \<open>
  A monetary bucket with the default balance at address 20, a bonus balance that holds 5
  and a balance in debt; the action has no filter, which matches every balance.
\<close>

definition transferStore :: store where
  "transferStore = emptyStore\<lparr>
     actions := (\<lambda>_. zeroAction)(0 := zeroAction\<lparr>ActionType := ''*transfer_monetary_default''\<rparr>),
     nextAction := 1,
     balances := (\<lambda>_. zeroBalance)
       (20 := zeroBalance\<lparr>Uuid := ''u0'', ID_b := ''*default'', Value := 10\<rparr>,
        21 := zeroBalance\<lparr>Uuid := ''u1'', ID_b := ''bonus'', Value := 5\<rparr>,
        22 := zeroBalance\<lparr>Uuid := ''u2'', ID_b := ''debt'', Value := - 3\<rparr>)\<rparr>"

definition transferAccount :: Account where
  "transferAccount = someAccount\<lparr>BalanceMap := [''*monetary'' \<mapsto> [20, 21, 22]]\<rparr>"

text \<open>
  The same with balances that were created without an id: the default balance and a
  second balance, restricted to a destination, both carry the empty id.
\<close>

definition sameIdStore :: store where
  "sameIdStore = emptyStore\<lparr>
     actions := (\<lambda>_. zeroAction)(0 := zeroAction\<lparr>ActionType := ''*transfer_monetary_default''\<rparr>),
     nextAction := 1,
     balances := (\<lambda>_. zeroBalance)
       (20 := zeroBalance\<lparr>Uuid := ''u0'', Value := 10\<rparr>,
        21 := zeroBalance\<lparr>Uuid := ''u1'', Value := 5, DestinationIDs := [''DST_NAT'']\<rparr>)\<rparr>"

definition sameIdAccount :: Account where
  "sameIdAccount = someAccount\<lparr>BalanceMap := [''*monetary'' \<mapsto> [20, 21]]\<rparr>"

definition sameIdRun :: "error option \<times> Account option \<times> store" where
  "sameIdRun =
     transferMonetaryDefaultAction (defaultAt 20) matchID ''*monetary'' (Some sameIdAccount) None 0 []
       sameIdStore"

text \<open>
  A storage in memory: the accounts, the action plans and the membership index from an
  account to its plans. Removing an account that is not there is no error, as a key-value
  store deletes; a missing plan or index entry is not found; the cache always reloads.
\<close>

record memDB =
  accounts :: "string set"
  plans :: "string \<rightharpoonup> ActionPlan"
  planIndex :: "string \<rightharpoonup> string list"

definition memDM :: "memDB DataManager" where
  "memDM = \<lparr>
     RemoveAccount = (\<lambda>k d. (None, d\<lparr>accounts := accounts d - {k}\<rparr>)),
     GetAccountActionPlans = (\<lambda>k d.
       case planIndex d k of None \<Rightarrow> (([], Some ErrNotFound), d) | Some ids \<Rightarrow> ((ids, None), d)),
     GetActionPlan = (\<lambda>k d.
       case plans d k of None \<Rightarrow> (Inl ErrNotFound, d) | Some ap \<Rightarrow> (Inr ap, d)),
     SetActionPlan = (\<lambda>k ap d. (None, d\<lparr>plans := (plans d)(k \<mapsto> ap)\<rparr>)),
     RemAccountActionPlans = (\<lambda>k d. (None, d\<lparr>planIndex := (planIndex d)(k := None)\<rparr>)),
     CacheDataFromDB = (\<lambda>prefix keys invalidate d. (None, d)),
     GetDestination = (\<lambda>k d. ((None, Some ErrNotFound), d)),
     SetDestination = (\<lambda>dest d. (None, d)),
     UpdateReverseDestination = (\<lambda>old new d. (None, d))\<rparr>"

definition errorText :: "error \<Rightarrow> string" where
  "errorText e = (case e of ErrNotFound \<Rightarrow> ''NOT_FOUND'' | External m \<Rightarrow> m | _ \<Rightarrow> ''ERROR'')"

definition concatKey :: "string \<Rightarrow> string \<Rightarrow> string" where
  "concatKey tenant account = tenant @ '':'' @ account"

definition noAccountInfo :: "string \<Rightarrow> error + string \<times> string" where
  "noAccountInfo s = Inl (External ''invalid character'')"

text \<open>The account 1001 is a member of the plan AP1; \<open>removedDB\<close> is the storage once it is removed.\<close>

definition planDB :: memDB where
  "planDB = \<lparr>accounts = {''cgrates.org:1001''},
     plans = [''AP1'' \<mapsto> \<lparr>Id_ap = ''AP1'', AccountIDs = {''cgrates.org:1001'', ''cgrates.org:1002''}\<rparr>],
     planIndex = [''cgrates.org:1001'' \<mapsto> [''AP1'']]\<rparr>"

definition removedDB :: memDB where
  "removedDB = \<lparr>accounts = {},
     plans = [''AP1'' \<mapsto> \<lparr>Id_ap = ''AP1'', AccountIDs = {''cgrates.org:1002''}\<rparr>],
     planIndex = Map.empty\<rparr>"

text \<open>
  Collaborators for \<open>cgrRPCAction\<close>: the template is taken as it is, the request asks the
  internal connection for \<open>ApierV1.SetAccount\<close> with a parameter of the wrong type, and
  decoding fails on it and leaves the input shape empty.
\<close>

definition failingDecodeEnv :: "(string, string, unit, (string \<times> string) list) rpc_env" where
  "failingDecodeEnv = \<lparr>
     tmplParse = (\<lambda>s. Inr s),
     tmplExecute = (\<lambda>t ctx. Inr t),
     jsonUnmarshal = (\<lambda>s. Inr \<lparr>Address = ''*internal'', Transport = ''*json'',
                               Method = ''ApierV1.SetAccount'', Attempts = 1, Async = False,
                               Params = [(''Account'', ''true'')]\<rparr>),
     GetRpcParams = (\<lambda>m. Inr \<lparr>Object = Some (), InParam = Some [], OutParam = Some []\<rparr>),
     NewRpcClient = (\<lambda>address attempts transport. Inl (External ''connection refused'')),
     MetaInternal = ''*internal'',
     Decode = (\<lambda>ps i. (Some (External ''expected type string, got bool''), i)),
     Call = (\<lambda>c m i out. (None, out))\<rparr>"

text \<open>
  Collaborators for \<open>cdrLogAction\<close>. A field specification is one field: a leading \<open>^\<close>
  makes it a static value, otherwise it names the value to copy; the empty
  specification is refused. The template decoder reads the empty JSON object and
  refuses everything else. An account key is split at its colon. Numbers are formatted and
  parsed on the few values the examples use. \<open>CDR\<close> has the string fields of the default
  template and the float field \<open>Cost\<close>. No CDR store is configured.
\<close>

definition logConsts :: cdr_consts where
  "logConsts = \<lparr>c_ToR = ''ToR'', c_OriginHost = ''OriginHost'', c_RequestType = ''RequestType'',
     c_Tenant = ''Tenant'', c_Account = ''Account'', c_Subject = ''Subject'', c_COST = ''Cost'',
     c_Category = ''Category'', c_META_PREPAID = ''*prepaid''\<rparr>"

definition oneField :: "string \<Rightarrow> string \<times> string option" where
  "oneField spec = (case spec of
      c # rest \<Rightarrow> if c = CHR ''^'' then (rest, Some rest) else (spec, None)
    | [] \<Rightarrow> ([], None))"

definition logEnv :: "(string \<times> string option, unit) cdr_env" where
  "logEnv = \<lparr>
     rsrId = fst,
     rsrParse = (\<lambda>fld v. case snd fld of Some static \<Rightarrow> Inr static | None \<Rightarrow> Inr v),
     ParseRSRFields = (\<lambda>spec. if spec = [] then Inl (External ''empty field'') else Inr [oneField spec]),
     ParseRSRFieldsMustCompile = (\<lambda>spec. [oneField spec]),
     unmarshalTemplate = (\<lambda>js. if js = ''{}'' then Inr [] else Inl (External ''unexpected end of JSON input'')),
     NewTAFromAccountKey = (\<lambda>key. Inr (takeWhile (\<lambda>c. c \<noteq> CHR '':'') key,
                                         drop 1 (dropWhile (\<lambda>c. c \<noteq> CHR '':'') key))),
     FormatFloat = (\<lambda>x. if x = 5 then ''5'' else if x = - 5 then ''-5'' else ''0''),
     ParseFloat = (\<lambda>t. if t = ''5'' then Some 5 else if t = ''-5'' then Some (- 5)
                        else if t = ''0'' then Some 0 else None),
     fieldKind = (\<lambda>name. if name \<in> set [''ToR'', ''OriginHost'', ''RequestType'', ''Tenant'', ''Account'',
                                          ''Subject'', ''RunID'', ''Source'', ''OriginID'', ''CGRID'']
                          then Some KString
                          else if name = ''Cost'' then Some KFloat64 else None),
     timeNow = ''2018-03-01 10:00:00'',
     GenUUID = (\<lambda>n. ''uuid-'' @ replicate n (CHR ''i'')),
     Sha1 = (\<lambda>x y. ''sha1:'' @ x @ y),
     cdrStorage = None,
     marshalCDRs = (\<lambda>cdrs. replicate (length cdrs) (CHR ''#''))\<rparr>"

text \<open>
  A debit of 5, a log action and the \<open>cdrlog\<close> action itself, at the addresses 30, 31 and
  32; in \<open>badTemplateStore\<close> the \<open>cdrlog\<close> action carries a broken template.
\<close>

definition logStore :: store where
  "logStore = emptyStore\<lparr>
     actions := (\<lambda>_. zeroAction)
       (30 := zeroAction\<lparr>Id_a := ''ACT'', ActionType := ''*debit'', Weight := 20, Balance := Some 0\<rparr>,
        31 := zeroAction\<lparr>Id_a := ''ACT'', ActionType := ''*log'', Weight := 10\<rparr>,
        32 := zeroAction\<lparr>Id_a := ''ACT'', ActionType := ''*cdrlog''\<rparr>),
     nextAction := 33,
     filters := (\<lambda>_. zeroFilter)(0 := zeroFilter\<lparr>Type_bf := ''*monetary'', Value_bf := 5\<rparr>),
     nextFilter := 1\<rparr>"

definition badTemplateStore :: store where
  "badTemplateStore =
     logStore\<lparr>actions := (actions logStore)(32 := (actions logStore 32)\<lparr>ExtraParameters := ''{''\<rparr>)\<rparr>"

definition badTemplateRun :: "(error option \<times> CDR list \<times> store \<times> unit) outcome" where
  "badTemplateRun = cdrLogAction logConsts logEnv (Some someAccount) None 32 [30, 31, 32] badTemplateStore ()"

text \<open>The CDR that \<open>logStore\<close> yields for the debit, and the heap once it is logged.\<close>

definition debitCDR :: CDR where
  "debitCDR = \<lparr>
     stringFields = [''RunID'' \<mapsto> ''*debit'', ''Source'' \<mapsto> ''*cdrlog'', ''OriginID'' \<mapsto> ''uuid-'',
                     ''CGRID'' \<mapsto> ''sha1:uuid-2018-03-01 10:00:00'', ''ToR'' \<mapsto> ''*monetary'',
                     ''OriginHost'' \<mapsto> ''127.0.0.1'', ''RequestType'' \<mapsto> ''*prepaid'',
                     ''Tenant'' \<mapsto> ''cgrates.org'', ''Account'' \<mapsto> ''1001'', ''Subject'' \<mapsto> ''1001''],
     floatFields = [''Cost'' \<mapsto> 5],
     SetupTime = ''2018-03-01 10:00:00'', AnswerTime = ''2018-03-01 10:00:00'', Usage = 1,
     ExtraFields = Map.empty\<rparr>"

definition loggedStore :: store where
  "loggedStore =
     logStore\<lparr>actions := (actions logStore)(32 := (actions logStore 32)\<lparr>ExpirationString := ''#''\<rparr>)\<rparr>"

text \<open>
  Seven actions at the addresses 40 to 46: the second and the last have the weight 20,
  the first the weight 10 and the others the weight 5.
\<close>

definition sevenStore :: store where
  "sevenStore = emptyStore\<lparr>
     actions := (\<lambda>_. zeroAction)
       (40 := zeroAction\<lparr>Id_a := ''A0'', Weight := 10\<rparr>,
        41 := zeroAction\<lparr>Id_a := ''A1'', Weight := 20\<rparr>,
        42 := zeroAction\<lparr>Id_a := ''A2'', Weight := 5\<rparr>,
        43 := zeroAction\<lparr>Id_a := ''A3'', Weight := 5\<rparr>,
        44 := zeroAction\<lparr>Id_a := ''A4'', Weight := 5\<rparr>,
        45 := zeroAction\<lparr>Id_a := ''A5'', Weight := 5\<rparr>,
        46 := zeroAction\<lparr>Id_a := ''A6'', Weight := 20\<rparr>),
     nextAction := 47\<rparr>"

text \<open>The same collaborators with a CDR store whose every write fails.\<close>

definition failingStoreEnv :: "(string \<times> string option, unit) cdr_env" where
  "failingStoreEnv = logEnv\<lparr>cdrStorage := Some (\<lambda>cdr s. (Some (External ''store unreachable''), s))\<rparr>"

section \<open>Properties\<close>

subsection \<open>\<open>Actions.Sort\<close>\<close>

lemma ActionsInterface_sel [simp]:
  "iLen (ActionsInterface st) = Len" "iLess (ActionsInterface st) = Less st"
  "iSwap (ActionsInterface st) = Swap"
  by (simp_all add: ActionsInterface_def)

lemma Swap_length [simp]: "length (Swap apl i j) = length apl"
  by (simp add: Swap_def)

lemma Swap_mset: "i < length apl \<Longrightarrow> j < length apl \<Longrightarrow> mset (Swap apl i j) = mset apl"
  by (simp add: Swap_def mset_swap)

lemma Swap_nth:
  "i < length apl \<Longrightarrow> j < length apl \<Longrightarrow>
   Swap apl i j ! k = (if k = j then apl ! i else if k = i then apl ! j else apl ! k)"
  by (simp add: Swap_def nth_list_update)

lemma swapped_length: "swapped apl b \<Longrightarrow> length b = length apl"
  by (induction rule: swapped.induct) simp_all

lemma swapped_mset: "swapped apl b \<Longrightarrow> mset b = mset apl"
  by (induction rule: swapped.induct) (simp_all add: Swap_mset Len_def)

lemma swapped_trans: "swapped b c \<Longrightarrow> swapped apl b \<Longrightarrow> swapped apl c"
  by (induction rule: swapped.induct) (auto intro: swapped.intros)

lemma insertionInner_sorts:
  assumes "j \<le> i" and "i < length xs"
    and "\<forall>p q. p < q \<longrightarrow> q \<le> i \<longrightarrow> q \<noteq> j \<longrightarrow>
           Weight (actions st (xs ! q)) \<le> Weight (actions st (xs ! p))"
  shows "swapped xs (insertionInner (ActionsInterface st) xs 0 j) \<and>
         (\<forall>p q. p < q \<longrightarrow> q \<le> i \<longrightarrow>
            Weight (actions st (insertionInner (ActionsInterface st) xs 0 j ! q))
              \<le> Weight (actions st (insertionInner (ActionsInterface st) xs 0 j ! p)))"
  using assms
proof (induction j arbitrary: xs)
  case 0
  have "insertionInner (ActionsInterface st) xs 0 0 = xs"
    by (subst insertionInner.simps) simp
  moreover have "\<forall>p q. p < q \<longrightarrow> q \<le> i \<longrightarrow>
      Weight (actions st (xs ! q)) \<le> Weight (actions st (xs ! p))"
    using "0.prems"(3) by auto
  ultimately show ?case by (simp add: swapped_refl)
next
  case (Suc j)
  let ?w = "\<lambda>ys k. Weight (actions st (ys ! k))"
  show ?case
  proof (cases "Less st xs (Suc j) j")
    case False
    then have stop: "insertionInner (ActionsInterface st) xs 0 (Suc j) = xs"
      by (subst insertionInner.simps) simp
    from False have le: "?w xs (Suc j) \<le> ?w xs j" by (simp add: Less_def)
    have "?w xs q \<le> ?w xs p" if "p < q" "q \<le> i" for p q
    proof (cases "q = Suc j")
      case False
      with that Suc.prems(3) show ?thesis by blast
    next
      case True
      show ?thesis
      proof (cases "p = j")
        case True
        with le \<open>q = Suc j\<close> show ?thesis by simp
      next
        case False
        with that True have "p < j" by simp
        moreover have "j \<le> i" "j \<noteq> Suc j" using Suc.prems(1) by simp_all
        ultimately have "?w xs j \<le> ?w xs p" using Suc.prems(3) by blast
        with le True show ?thesis by simp
      qed
    qed
    with stop show ?thesis by (simp add: swapped_refl)
  next
    case True
    let ?ys = "Swap xs (Suc j) j"
    have jl: "Suc j < length xs" "j < length xs" using Suc.prems(1,2) by simp_all
    have step: "insertionInner (ActionsInterface st) xs 0 (Suc j) =
                insertionInner (ActionsInterface st) ?ys 0 j"
      using True by (subst insertionInner.simps) simp
    from True have lt: "?w xs j < ?w xs (Suc j)" by (simp add: Less_def)
    have nth: "\<And>k. ?ys ! k = (if k = j then xs ! Suc j else if k = Suc j then xs ! j else xs ! k)"
      using jl by (simp add: Swap_nth)
    have inv: "\<forall>p q. p < q \<longrightarrow> q \<le> i \<longrightarrow> q \<noteq> j \<longrightarrow> ?w ?ys q \<le> ?w ?ys p"
    proof (intro allI impI)
      fix p q assume pq: "p < q" "q \<le> i" "q \<noteq> j"
      have old: "\<And>p' q'. p' < q' \<Longrightarrow> q' \<le> i \<Longrightarrow> q' \<noteq> Suc j \<Longrightarrow> ?w xs q' \<le> ?w xs p'"
        using Suc.prems(3) by blast
      consider (a) "q = Suc j" "p = j" | (b) "q = Suc j" "p < j" | (c) "Suc j < q" "p = j"
        | (d) "Suc j < q" "p = Suc j" | (e) "Suc j < q" "p \<noteq> j" "p \<noteq> Suc j" | (f) "q < j"
        using pq by linarith
      then show "?w ?ys q \<le> ?w ?ys p"
      proof cases
        case a
        then show ?thesis using lt by (simp add: nth)
      next
        case b
        then have "?w xs j \<le> ?w xs p" using old [of p j] Suc.prems(1) by simp
        with b show ?thesis by (simp add: nth)
      next
        case c
        then have "?w xs q \<le> ?w xs (Suc j)" using old [of "Suc j" q] pq by simp
        with c show ?thesis by (simp add: nth)
      next
        case d
        then have "?w xs q \<le> ?w xs j" using old [of j q] pq by simp
        with d show ?thesis by (simp add: nth)
      next
        case e
        then have "?w xs q \<le> ?w xs p" using old [of p q] pq by simp
        with e show ?thesis by (simp add: nth)
      next
        case f
        then have "?w xs q \<le> ?w xs p" using old [of p q] pq by simp
        with f pq show ?thesis by (simp add: nth)
      qed
    qed
    have "j \<le> i" "i < length ?ys" using Suc.prems(1,2) by simp_all
    from Suc.IH [OF this inv]
    have IH: "swapped ?ys (insertionInner (ActionsInterface st) ?ys 0 j)"
      "\<forall>p q. p < q \<longrightarrow> q \<le> i \<longrightarrow>
         ?w (insertionInner (ActionsInterface st) ?ys 0 j) q
           \<le> ?w (insertionInner (ActionsInterface st) ?ys 0 j) p"
      by blast+
    have "swapped xs ?ys" using jl by (intro swapped.intros) (simp_all add: Len_def)
    with IH(1) have "swapped xs (insertionInner (ActionsInterface st) ?ys 0 j)"
      by (rule swapped_trans)
    with IH(2) show ?thesis by (simp add: step)
  qed
qed

lemma insertionOuter_sorts:
  assumes "n = length xs - i" and "i \<le> length xs"
    and "\<forall>p q. p < q \<longrightarrow> q < i \<longrightarrow>
           Weight (actions st (xs ! q)) \<le> Weight (actions st (xs ! p))"
  shows "swapped xs (insertionOuter (ActionsInterface st) xs 0 (length xs) i) \<and>
         (\<forall>p q. p < q \<longrightarrow> q < length xs \<longrightarrow>
            Weight (actions st (insertionOuter (ActionsInterface st) xs 0 (length xs) i ! q))
              \<le> Weight (actions st (insertionOuter (ActionsInterface st) xs 0 (length xs) i ! p)))"
  using assms
proof (induction n arbitrary: xs i)
  case 0
  then have "i = length xs" by simp
  then have "insertionOuter (ActionsInterface st) xs 0 (length xs) i = xs"
    by (subst insertionOuter.simps) simp
  with "0.prems"(3) \<open>i = length xs\<close> show ?case by (simp add: swapped_refl)
next
  case (Suc n)
  then have il: "i < length xs" by simp
  let ?ys = "insertionInner (ActionsInterface st) xs 0 i"
  have pre: "\<forall>p q. p < q \<longrightarrow> q \<le> i \<longrightarrow> q \<noteq> i \<longrightarrow>
           Weight (actions st (xs ! q)) \<le> Weight (actions st (xs ! p))"
    using Suc.prems(3) by auto
  from insertionInner_sorts [OF le_refl il pre]
  have in1: "swapped xs ?ys"
    and in2: "\<forall>p q. p < q \<longrightarrow> q \<le> i \<longrightarrow>
                Weight (actions st (?ys ! q)) \<le> Weight (actions st (?ys ! p))"
    by blast+
  have len: "length ?ys = length xs" using in1 by (rule swapped_length)
  have step: "insertionOuter (ActionsInterface st) xs 0 (length xs) i =
              insertionOuter (ActionsInterface st) ?ys 0 (length ?ys) (Suc i)"
    using il by (subst insertionOuter.simps) (simp add: len)
  have a1: "n = length ?ys - Suc i" using Suc.prems(1) by (simp add: len)
  have a2: "Suc i \<le> length ?ys" using il by (simp add: len)
  have a3: "\<forall>p q. p < q \<longrightarrow> q < Suc i \<longrightarrow>
           Weight (actions st (?ys ! q)) \<le> Weight (actions st (?ys ! p))"
    using in2 by (simp add: less_Suc_eq_le)
  from Suc.IH [OF a1 a2 a3] in1 show ?case
    by (auto simp: step len intro: swapped_trans)
qed

lemma shellPass_swapped:
  assumes "n = b - i" and "b \<le> length xs"
  shows "swapped xs (shellPass (ActionsInterface st) xs b i)"
  using assms
proof (induction n arbitrary: xs i)
  case 0
  then have "shellPass (ActionsInterface st) xs b i = xs"
    by (subst shellPass.simps) simp
  then show ?case by (simp add: swapped_refl)
next
  case (Suc n)
  then have ib: "i < b" by simp
  let ?ys = "if Less st xs i (i - 6) then Swap xs i (i - 6) else xs"
  have sw: "swapped xs ?ys"
    using ib Suc.prems(2) by (auto intro!: swapped.intros simp: Len_def)
  have step: "shellPass (ActionsInterface st) xs b i = shellPass (ActionsInterface st) ?ys b (Suc i)"
    using ib by (subst shellPass.simps) simp
  have "n = b - Suc i" "b \<le> length ?ys" using Suc.prems by simp_all
  from Suc.IH [OF this] sw show ?case
    unfolding step by (rule swapped_trans)
qed

lemma sortSmall_sorts: "sorts st sortSmall"
  unfolding sorts_def
proof (intro allI)
  fix apl
  let ?r = "sortSmall (ActionsInterface st) apl"
  show "swapped apl ?r \<and> (\<forall>i j. i < j \<longrightarrow> j < Len ?r \<longrightarrow> \<not> Less st ?r j i)"
  proof (cases "1 < length apl")
    case False
    then have "?r = apl"
      by (simp add: sortSmall_def quickSortSmall_def Len_def)
    with False show ?thesis by (simp add: swapped_refl Len_def)
  next
    case True
    let ?ys = "shellPass (ActionsInterface st) apl (length apl) 6"
    have sh: "swapped apl ?ys" by (rule shellPass_swapped [OF refl]) simp
    then have len: "length ?ys = length apl" by (rule swapped_length)
    have r: "?r = insertionOuter (ActionsInterface st) ?ys 0 (length ?ys) 1"
      using True by (simp add: sortSmall_def quickSortSmall_def insertionSort_def Len_def len)
    have "\<forall>p q. p < q \<longrightarrow> q < 1 \<longrightarrow>
           Weight (actions st (?ys ! q)) \<le> Weight (actions st (?ys ! p))" by simp
    from insertionOuter_sorts [OF refl _ this] True
    have o: "swapped ?ys ?r"
      "\<forall>p q. p < q \<longrightarrow> q < length ?ys \<longrightarrow>
          Weight (actions st (?r ! q)) \<le> Weight (actions st (?r ! p))"
      unfolding r by (simp_all add: len)
    have "swapped apl ?r" using o(1) sh by (rule swapped_trans)
    moreover have "length ?r = length apl" using \<open>swapped apl ?r\<close> by (rule swapped_length)
    ultimately show ?thesis using o(2) by (auto simp: Len_def Less_def len not_less)
  qed
qed

text \<open>
  C1, amended. For every \<open>Actions\<close> list, \<open>Sort()\<close> rearranges it (the result has the
  actions of the input, each as often) into non-increasing \<open>Weight\<close> order, provided
  \<open>sort.Sort\<close> does what the library promises of it. Nothing is said of the order of two
  actions of equal \<open>Weight\<close>.
\<close>

theorem Sort_non_increasing_weight:
  assumes "sorts st sort_Sort"
  shows "mset (Sort sort_Sort st apl) = mset apl \<and>
         sorted_wrt (\<lambda>p q. Weight (actions st q) \<le> Weight (actions st p)) (Sort sort_Sort st apl)"
proof -
  let ?r = "sort_Sort (ActionsInterface st) apl"
  from assms have sw: "swapped apl ?r"
    and ord: "\<And>i j. i < j \<Longrightarrow> j < length ?r \<Longrightarrow> \<not> Less st ?r j i"
    by (simp_all add: sorts_def Len_def)
  have "sorted_wrt (\<lambda>p q. Weight (actions st q) \<le> Weight (actions st p)) ?r"
    unfolding sorted_wrt_iff_nth_less using ord by (auto simp: Less_def not_less)
  with swapped_mset [OF sw] show ?thesis by (simp add: Sort_def)
qed

theorem Sort_non_increasing_weight_witness:
  "Sort sortSmall sevenStore [40, 41, 42, 43, 44, 45, 46] = [46, 41, 40, 42, 43, 44, 45] \<and>
   mset [46, 41, 40, 42, 43, 44, 45] = mset [40, 41, 42, 43, 44, 45, 46::nat] \<and>
   sorted_wrt (\<lambda>p q. Weight (actions sevenStore q) \<le> Weight (actions sevenStore p))
     [46, 41, 40, 42, 43, 44, 45]"
proof -
  have run: "Sort sortSmall sevenStore [40, 41, 42, 43, 44, 45, 46] = [46, 41, 40, 42, 43, 44, 45]"
    by (simp add: Sort_def sortSmall_def quickSortSmall_def insertionSort_def ActionsInterface_def
        Len_def Less_def Swap_def shellPass.simps insertionOuter.simps insertionInner.simps
        sevenStore_def emptyStore_def zeroAction_def)
  from Sort_non_increasing_weight [OF sortSmall_sorts, of sevenStore "[40, 41, 42, 43, 44, 45, 46]"]
  show ?thesis unfolding run by simp
qed

text \<open>
  C1 as stated fails: \<open>sort.Sort\<close> is not stable. \<open>sortSmall\<close> does what the library
  promises of \<open>sort.Sort\<close>, and it is what Go 1.6 to 1.18 run on a slice of seven
  elements. On the seven actions of \<open>sevenStore\<close> its pass with gap 6 swaps the first
  action (weight 10) with the last (weight 20), which moves the last action in front of
  the second, of the same weight 20: the two come out in the opposite order of the input.
\<close>

theorem Sort_not_stable_counterexample:
  "sorts sevenStore sortSmall \<and>
   Weight (actions sevenStore 41) = Weight (actions sevenStore 46) \<and>
   [40, 41, 42, 43, 44, 45, 46] ! 1 = (41::nat) \<and> [40, 41, 42, 43, 44, 45, 46] ! 6 = (46::nat) \<and>
   Sort sortSmall sevenStore [40, 41, 42, 43, 44, 45, 46] ! 0 = 46 \<and>
   Sort sortSmall sevenStore [40, 41, 42, 43, 44, 45, 46] ! 1 = 41"
proof -
  have "Sort sortSmall sevenStore [40, 41, 42, 43, 44, 45, 46] = [46, 41, 40, 42, 43, 44, 45]"
    by (simp add: Sort_def sortSmall_def quickSortSmall_def insertionSort_def ActionsInterface_def
        Len_def Less_def Swap_def shellPass.simps insertionOuter.simps insertionInner.simps
        sevenStore_def emptyStore_def zeroAction_def)
  moreover have "Weight (actions sevenStore 41) = Weight (actions sevenStore 46)"
    by (simp add: sevenStore_def emptyStore_def zeroAction_def)
  ultimately show ?thesis using sortSmall_sorts [of sevenStore] by simp
qed

subsection \<open>\<open>mailAsync\<close>, the nil account, and the top-up handlers\<close>

lemma Split_nonempty_sep: "sep \<noteq> [] \<Longrightarrow> Split s sep \<noteq> []"
  by (subst Split.simps) (simp split: option.split)

text \<open>
  C10. For every \<open>ExtraParameters\<close> string, the branch of \<open>mailAsync\<close> that returns
  "Unconfigured parameters for mail action" is unreachable: splitting a string on the
  one-character CSV separator yields at least one element, so \<open>len(params) == 0\<close> is
  never true and \<open>mailAsync\<close> never returns that error.
\<close>

theorem mailAsync_unconfigured_unreachable:
  "Split (ExtraParameters a) [CSV_SEP] \<noteq> [] \<and>
   fst (mailAsync CSV_SEP FALLBACK_SEP jsonMarshal now cgrCfg ub sq a) \<noteq> Some UnconfiguredMail"
proof -
  have ne: "Split (ExtraParameters a) [CSV_SEP] \<noteq> []"
    by (rule Split_nonempty_sep) simp
  then have "length (Split (ExtraParameters a) [CSV_SEP]) \<noteq> 0" by simp
  then have "fst (mailAsync CSV_SEP FALLBACK_SEP jsonMarshal now cgrCfg ub sq a)
             \<noteq> Some UnconfiguredMail"
    by (simp add: mailAsync_def Let_def split: option.split sum.split)
  with ne show ?thesis by simp
qed

text \<open>
  C3. Every handler whose action type requires an account returns an explicit error on a
  nil account and never panics, \<open>enable_account\<close>, \<open>disable_account\<close> and
  \<open>set_ddestinations\<close> included. The first two do; \<open>setddestinations\<close> has no nil check and
  dereferences the nil account on its first line: it panics whatever its other arguments
  are.
\<close>

theorem setddestinations_nil_account_panics:
  "setddestinations dm keys None sq a acs st db = Panic \<and>
   enableAccountAction None sq a acs = Return (Some NilAccount, None) \<and>
   disableAccountAction None sq a acs = Return (Some NilAccount, None)"
  by (simp add: setddestinations_def enableAccountAction_def disableAccountAction_def)

text \<open>
  C2. For a non-nil account and a \<open>topup\<close> or \<open>topup_reset\<close> action (\<open>reset\<close> tells which)
  whose balance filter \<open>b\<close> carries a positive value: the handler debits the account with a
  clone \<open>c\<close> of the action, a new object whose filter is a new object that carries the
  negated value; the original's filter is unchanged after the call; the error and the
  account are those of the debit; and the clone's resulting \<open>balanceValue\<close> is copied
  onto the original, which is otherwise unchanged. The sign normalisation
  \<open>genericMakeNegative\<close> is idempotent, and it leaves a value that is already \<open>\<le> 0\<close> as
  it is.
\<close>

theorem topup_negates_clone_only:
  assumes "a < nextAction st" and "Balance (actions st a) = Some b" and "b < nextFilter st"
    and "0 < Value_bf (filters st b)"
  shows "(let c = nextAction st;
              r = debit acc (balances st)
                    ((actions st a)\<lparr>Balance := Some (nextFilter st), balanceValue := 0\<rparr>)
                    (Some ((gobFilter (filters st b))\<lparr>Value_bf := - Value_bf (filters st b)\<rparr>))
                    reset False
          in case (if reset then topupResetAction else topupAction) debit (Some acc) sq a acs st of
               (err, ub', st') \<Rightarrow>
                 err = dbErr r \<and> ub' = Some (dbAccount r) \<and>
                 c \<noteq> a \<and> Balance (actions st' c) = Some (nextFilter st) \<and>
                 filters st' b = filters st b \<and>
                 Balance (actions st' a) = Some b \<and>
                 balanceValue (actions st' c) = dbBalanceValue r \<and>
                 actions st' a = (actions st a)\<lparr>balanceValue := balanceValue (actions st' c)\<rparr>) \<and>
         genericMakeNegative x (genericMakeNegative x s) = genericMakeNegative x s \<and>
         (\<forall>b'. Balance (actions s x) = Some b' \<longrightarrow> Value_bf (filters s b') \<le> 0 \<longrightarrow>
               genericMakeNegative x s = s)"
  using assms
  by (auto simp: topupAction_def topupResetAction_def Action_Clone_def utils_Clone_def genericMakeNegative_def genericDebit_def
      callDebit_def copyBalanceValue_def filterOf_def Let_def gobFilter_def split: option.splits prod.splits)

theorem topup_negates_clone_only_witness:
  "(0::nat) < nextAction topupStore \<and> Balance (actions topupStore 0) = Some 0 \<and>
   0 < nextFilter topupStore \<and> 0 < Value_bf (filters topupStore 0) \<and>
   (case topupAction recordingDebit (Some someAccount) None 0 [] topupStore of
      (err, ub', st') \<Rightarrow>
         err = None \<and> ub' = Some someAccount \<and>
         Value_bf (filters st' 0) = 5 \<and>
         balanceValue (actions st' 0) = - 5)"
proof -
  have h: "(0::nat) < nextAction topupStore" "Balance (actions topupStore 0) = Some 0"
    "0 < nextFilter topupStore" "0 < Value_bf (filters topupStore 0)"
    by (simp_all add: topupStore_def emptyStore_def zeroAction_def zeroFilter_def)
  show ?thesis
    using topup_negates_clone_only [OF h, of recordingDebit someAccount False None "[]"]
    by (auto simp: Let_def recordingDebit_def topupStore_def emptyStore_def zeroAction_def zeroFilter_def gobFilter_def gobFlag_def
        split: prod.splits)
qed

subsection \<open>\<open>Actions.Clone\<close> is a deep copy\<close>

lemma utils_Clone_slice_append:
  "utils_Clone_slice (xs @ ys) st =
     (case utils_Clone_slice xs st of (cs, st1) \<Rightarrow>
        (case utils_Clone_slice ys st1 of (ds, st2) \<Rightarrow> (cs @ ds, st2)))"
  by (induction xs arbitrary: st) (simp_all split: prod.splits)

lemma filterCount_take_less:
  assumes "i < length xs" "hasBalance st (xs ! i)"
  shows "filterCount st (take i xs) < filterCount st xs"
proof -
  have "xs = take i xs @ xs ! i # drop (Suc i) xs"
    using assms(1) by (simp add: id_take_nth_drop)
  then have "filterCount st xs = filterCount st (take i xs) + filterCount st (xs ! i # drop (Suc i) xs)"
    unfolding filterCount_def by (metis filter_append length_append)
  with assms(2) show ?thesis by (simp add: filterCount_def)
qed

lemma utils_Clone_slice_cloned:
  assumes "\<forall>a\<in>set xs. a < nextAction s0 \<and> (\<forall>b. Balance (actions s0 a) = Some b \<longrightarrow> b < nextFilter s0)"
  shows "sliceCloned s0 xs (fst (utils_Clone_slice xs s0)) (snd (utils_Clone_slice xs s0))"
  using assms
proof (induction xs rule: rev_induct)
  case Nil
  show ?case by (simp add: sliceCloned_def filterCount_def)
next
  case (snoc a xs)
  obtain cs s1 where cl: "utils_Clone_slice xs s0 = (cs, s1)" by (cases "utils_Clone_slice xs s0")
  with snoc have IH: "sliceCloned s0 xs cs s1" by simp
  from snoc.prems have a: "a < nextAction s0"
    and ab: "\<And>b. Balance (actions s0 a) = Some b \<Longrightarrow> b < nextFilter s0" by auto
  from IH a have act: "actions s1 a = actions s0 a" by (simp add: sliceCloned_def)
  let ?A = "nextAction s0" and ?F = "nextFilter s0"
  let ?n = "length xs"
  have nA: "nextAction s1 = ?A + ?n" and nF: "nextFilter s1 = ?F + filterCount s0 xs"
    using IH by (simp_all add: sliceCloned_def)
  obtain c s2 where c2: "utils_Clone a s1 = (c, s2)" by (cases "utils_Clone a s1")
  have res: "utils_Clone_slice (xs @ [a]) s0 = (cs @ [c], s2)"
    by (simp add: utils_Clone_slice_append cl c2)
  have c: "c = ?A + ?n" using c2 nA by (auto simp: utils_Clone_def Let_def split: option.splits)
  show ?case
  proof (cases "Balance (actions s0 a)")
    case None
    with c2 act nA have s2: "s2 = s1\<lparr>actions := (actions s1)(?A + ?n := (actions s0 a)\<lparr>balanceValue := 0\<rparr>),
         nextAction := Suc (?A + ?n)\<rparr>"
      by (auto simp: utils_Clone_def Let_def)
    have fc: "filterCount s0 (xs @ [a]) = filterCount s0 xs"
      using None by (simp add: filterCount_def hasBalance_def)
    have "sliceCloned s0 (xs @ [a]) (cs @ [c]) s2"
      unfolding sliceCloned_def
    proof (intro conjI allI impI)
      fix i assume i: "i < length (xs @ [a])"
      show "actions s2 (?A + i) =
          (actions s0 ((xs @ [a]) ! i))\<lparr>Balance := map_option (\<lambda>_. ?F + filterCount s0 (take i (xs @ [a])))
                                                (Balance (actions s0 ((xs @ [a]) ! i))),
                                 balanceValue := 0\<rparr>"
      proof (cases "i < ?n")
        case True
        then show ?thesis using IH by (simp add: s2 sliceCloned_def nth_append)
      next
        case False
        with i have "i = ?n" by simp
        then show ?thesis using None by (simp add: s2)
      qed
    next
      fix i b assume i: "i < length (xs @ [a])" and b: "Balance (actions s0 ((xs @ [a]) ! i)) = Some b"
      have "i < ?n" using i b None by (cases "i = ?n") auto
      then show "filters s2 (?F + filterCount s0 (take i (xs @ [a]))) = gobFilter (filters s0 b)"
        using IH b by (simp add: s2 sliceCloned_def nth_append)
    qed (use IH c fc in \<open>auto simp: s2 sliceCloned_def\<close>)
    with res show ?thesis by simp
  next
    case (Some b)
    then have b: "b < ?F" using ab by simp
    from Some c2 act nA nF have s2: "s2 = s1\<lparr>actions := (actions s1)(?A + ?n :=
               (actions s0 a)\<lparr>Balance := Some (?F + filterCount s0 xs), balanceValue := 0\<rparr>),
         nextAction := Suc (?A + ?n),
         filters := (filters s1)(?F + filterCount s0 xs := gobFilter (filters s1 b)),
         nextFilter := Suc (?F + filterCount s0 xs)\<rparr>"
      by (auto simp: utils_Clone_def Let_def)
    have fb: "filters s1 b = filters s0 b" using IH b by (simp add: sliceCloned_def)
    have fc: "filterCount s0 (xs @ [a]) = Suc (filterCount s0 xs)"
      using Some by (simp add: filterCount_def hasBalance_def)
    have "sliceCloned s0 (xs @ [a]) (cs @ [c]) s2"
      unfolding sliceCloned_def
    proof (intro conjI allI impI)
      fix i assume i: "i < length (xs @ [a])"
      show "actions s2 (?A + i) =
          (actions s0 ((xs @ [a]) ! i))\<lparr>Balance := map_option (\<lambda>_. ?F + filterCount s0 (take i (xs @ [a])))
                                                (Balance (actions s0 ((xs @ [a]) ! i))),
                                 balanceValue := 0\<rparr>"
      proof (cases "i < ?n")
        case True
        then show ?thesis using IH by (simp add: s2 sliceCloned_def nth_append)
      next
        case False
        with i have "i = ?n" by simp
        then show ?thesis using Some by (simp add: s2)
      qed
    next
      fix i b' assume i: "i < length (xs @ [a])" and b': "Balance (actions s0 ((xs @ [a]) ! i)) = Some b'"
      show "filters s2 (?F + filterCount s0 (take i (xs @ [a]))) = gobFilter (filters s0 b')"
      proof (cases "i < ?n")
        case True
        with b' have "hasBalance s0 (xs ! i)" by (simp add: hasBalance_def nth_append)
        with True have "filterCount s0 (take i xs) < filterCount s0 xs"
          by (rule filterCount_take_less)
        with True IH b' show ?thesis by (simp add: s2 sliceCloned_def nth_append)
      next
        case False
        with i have "i = ?n" by simp
        with b' Some fb show ?thesis by (simp add: s2)
      qed
    qed (use IH c fc in \<open>auto simp: s2 sliceCloned_def\<close>)
    with res show ?thesis by simp
  qed
qed

lemma gobFilter_restore_both:
  "Disabled_bf bf = Some False \<Longrightarrow> Blocker_bf bf = Some False \<Longrightarrow>
   (gobFilter bf)\<lparr>Disabled_bf := Some False, Blocker_bf := Some False\<rparr> = bf"
  by (cases bf) (simp add: gobFilter_def gobFlag_def)

lemma gobFilter_restore_disabled:
  "Disabled_bf bf = Some False \<Longrightarrow> Blocker_bf bf \<noteq> Some False \<Longrightarrow>
   (gobFilter bf)\<lparr>Disabled_bf := Some False\<rparr> = bf"
  by (cases bf) (simp add: gobFilter_def gobFlag_def)

lemma gobFilter_restore_blocker:
  "Disabled_bf bf \<noteq> Some False \<Longrightarrow> Blocker_bf bf = Some False \<Longrightarrow>
   (gobFilter bf)\<lparr>Blocker_bf := Some False\<rparr> = bf"
  by (cases bf) (simp add: gobFilter_def gobFlag_def)

lemma gobFilter_restore_none:
  "Disabled_bf bf \<noteq> Some False \<Longrightarrow> Blocker_bf bf \<noteq> Some False \<Longrightarrow> gobFilter bf = bf"
  by (cases bf) (simp add: gobFilter_def gobFlag_def)

lemma fixFlags_restores:
  assumes "i + length rest \<le> length cln"
    and "\<forall>k<length rest. \<forall>b. Balance (actions s (rest ! k)) = Some b \<longrightarrow>
           b < F \<and> F \<le> g (i + k) \<and> Balance (actions s (cln ! (i + k))) = Some (g (i + k)) \<and>
           filters s (g (i + k)) = gobFilter (filters s b)"
    and "\<forall>k<length rest. \<forall>k'<length rest. k \<noteq> k' \<longrightarrow>
           hasBalance s (rest ! k) \<longrightarrow> hasBalance s (rest ! k') \<longrightarrow> g (i + k) \<noteq> g (i + k')"
  shows "\<exists>s'. fixFlags i rest cln s = Return s' \<and> actions s' = actions s \<and>
           nextAction s' = nextAction s \<and> nextFilter s' = nextFilter s \<and> balances s' = balances s \<and>
           (\<forall>q. (\<forall>k<length rest. hasBalance s (rest ! k) \<longrightarrow> q \<noteq> g (i + k)) \<longrightarrow>
                filters s' q = filters s q) \<and>
           (\<forall>k<length rest. \<forall>b. Balance (actions s (rest ! k)) = Some b \<longrightarrow>
                filters s' (g (i + k)) = filters s b)"
  using assms
proof (induction rest arbitrary: i s)
  case Nil
  show ?case by simp
next
  case (Cons act rest)
  have len: "Suc i + length rest \<le> length cln" using Cons.prems(1) by simp
  show ?case
  proof (cases "Balance (actions s act)")
    case None
    have p2: "\<forall>k<length rest. \<forall>b. Balance (actions s (rest ! k)) = Some b \<longrightarrow>
           b < F \<and> F \<le> g (Suc i + k) \<and> Balance (actions s (cln ! (Suc i + k))) = Some (g (Suc i + k)) \<and>
           filters s (g (Suc i + k)) = gobFilter (filters s b)"
    proof (intro allI impI)
      fix k b' assume k: "k < length rest" and b': "Balance (actions s (rest ! k)) = Some b'"
      from Cons.prems(2) [rule_format, of "Suc k" b'] k b'
      show "b' < F \<and> F \<le> g (Suc i + k) \<and> Balance (actions s (cln ! (Suc i + k))) = Some (g (Suc i + k)) \<and>
           filters s (g (Suc i + k)) = gobFilter (filters s b')" by simp
    qed
    have p3: "\<forall>k<length rest. \<forall>k'<length rest. k \<noteq> k' \<longrightarrow>
           hasBalance s (rest ! k) \<longrightarrow> hasBalance s (rest ! k') \<longrightarrow> g (Suc i + k) \<noteq> g (Suc i + k')"
    proof (intro allI impI)
      fix k k' assume "k < length rest" "k' < length rest" "k \<noteq> k'"
        "hasBalance s (rest ! k)" "hasBalance s (rest ! k')"
      then show "g (Suc i + k) \<noteq> g (Suc i + k')"
        using Cons.prems(3) [rule_format, of "Suc k" "Suc k'"] by simp
    qed
    from Cons.IH [OF len p2 p3] obtain s' where s':
      "fixFlags (Suc i) rest cln s = Return s'" "actions s' = actions s"
      "nextAction s' = nextAction s" "nextFilter s' = nextFilter s" "balances s' = balances s"
      "\<forall>q. (\<forall>k<length rest. hasBalance s (rest ! k) \<longrightarrow> q \<noteq> g (Suc i + k)) \<longrightarrow> filters s' q = filters s q"
      "\<forall>k<length rest. \<forall>b. Balance (actions s (rest ! k)) = Some b \<longrightarrow> filters s' (g (Suc i + k)) = filters s b"
      by blast
    have "fixFlags i (act # rest) cln s = Return s'" using None s'(1) by simp
    moreover have "\<forall>q. (\<forall>k<length (act # rest). hasBalance s ((act # rest) ! k) \<longrightarrow> q \<noteq> g (i + k)) \<longrightarrow>
                filters s' q = filters s q"
    proof (intro allI impI)
      fix q assume q: "\<forall>k<length (act # rest). hasBalance s ((act # rest) ! k) \<longrightarrow> q \<noteq> g (i + k)"
      have "\<forall>k<length rest. hasBalance s (rest ! k) \<longrightarrow> q \<noteq> g (Suc i + k)"
      proof (intro allI impI)
        fix k assume "k < length rest" "hasBalance s (rest ! k)"
        then show "q \<noteq> g (Suc i + k)" using q [rule_format, of "Suc k"] by simp
      qed
      with s'(6) show "filters s' q = filters s q" by blast
    qed
    moreover have "\<forall>k<length (act # rest). \<forall>b. Balance (actions s ((act # rest) ! k)) = Some b \<longrightarrow>
                filters s' (g (i + k)) = filters s b"
    proof (intro allI impI)
      fix k b assume k: "k < length (act # rest)" and b: "Balance (actions s ((act # rest) ! k)) = Some b"
      with None obtain k' where k': "k = Suc k'" by (cases k) auto
      with k b s'(7) show "filters s' (g (i + k)) = filters s b" by simp
    qed
    ultimately show ?thesis using s'(2-5) by blast
  next
    case (Some b)
    from Cons.prems(2) [rule_format, of 0 b] Some
    have b: "b < F" "F \<le> g i" "Balance (actions s (cln ! i)) = Some (g i)"
      "filters s (g i) = gobFilter (filters s b)" by simp_all
    have il: "i < length cln" using Cons.prems(1) by simp
    have bg: "b \<noteq> g i" using b by simp
    define s2 where "s2 = s\<lparr>filters := (filters s)(g i := filters s b)\<rparr>"
    have step: "fixFlags i (act # rest) cln s = fixFlags (Suc i) rest cln s2"
    proof (cases "Disabled_bf (filters s b) = Some False")
      case D: True
      show ?thesis
      proof (cases "Blocker_bf (filters s b) = Some False")
        case True
        with D have "(gobFilter (filters s b))\<lparr>Disabled_bf := Some False, Blocker_bf := Some False\<rparr> = filters s b"
          by (rule gobFilter_restore_both)
        with Some b il bg D True show ?thesis
          by (simp add: s2_def clonedFilter_def)
      next
        case False
        with D have "(gobFilter (filters s b))\<lparr>Disabled_bf := Some False\<rparr> = filters s b"
          by (rule gobFilter_restore_disabled)
        with Some b il bg D False show ?thesis
          by (simp add: s2_def clonedFilter_def)
      qed
    next
      case D: False
      show ?thesis
      proof (cases "Blocker_bf (filters s b) = Some False")
        case True
        with D have "(gobFilter (filters s b))\<lparr>Blocker_bf := Some False\<rparr> = filters s b"
          by (rule gobFilter_restore_blocker)
        with Some b il bg D True show ?thesis
          by (simp add: s2_def clonedFilter_def)
      next
        case False
        with D have "gobFilter (filters s b) = filters s b"
          by (rule gobFilter_restore_none)
        with b(4) have "(filters s)(g i := filters s b) = filters s"
          by (simp add: fun_upd_idem)
        then have "s2 = s" by (simp add: s2_def)
        with Some D False show ?thesis by simp
      qed
    qed
    have a2: "actions s2 = actions s" by (simp add: s2_def)
    have f2: "\<And>q. q \<noteq> g i \<Longrightarrow> filters s2 q = filters s q" by (simp add: s2_def)
    have h2: "hasBalance s2 = hasBalance s" by (simp add: hasBalance_def a2 fun_eq_iff)
    have hb: "hasBalance s act" using Some by (simp add: hasBalance_def)
    have p2: "\<forall>k<length rest. \<forall>b. Balance (actions s2 (rest ! k)) = Some b \<longrightarrow>
           b < F \<and> F \<le> g (Suc i + k) \<and> Balance (actions s2 (cln ! (Suc i + k))) = Some (g (Suc i + k)) \<and>
           filters s2 (g (Suc i + k)) = gobFilter (filters s2 b)"
    proof (intro allI impI)
      fix k b' assume k: "k < length rest" and b': "Balance (actions s2 (rest ! k)) = Some b'"
      from Cons.prems(2) [rule_format, of "Suc k" b'] k b'
      have 1: "b' < F" "F \<le> g (Suc i + k)" "Balance (actions s (cln ! (Suc i + k))) = Some (g (Suc i + k))"
        "filters s (g (Suc i + k)) = gobFilter (filters s b')" by (simp_all add: a2)
      have "hasBalance s (rest ! k)" using b' by (simp add: hasBalance_def a2)
      with Cons.prems(3) [rule_format, of "Suc k" 0] k hb have 2: "g (Suc i + k) \<noteq> g i" by simp
      have 3: "b' \<noteq> g i" using 1(1) b(2) by simp
      show "b' < F \<and> F \<le> g (Suc i + k) \<and> Balance (actions s2 (cln ! (Suc i + k))) = Some (g (Suc i + k)) \<and>
           filters s2 (g (Suc i + k)) = gobFilter (filters s2 b')"
        using 1 2 3 by (simp add: a2 f2)
    qed
    have p3: "\<forall>k<length rest. \<forall>k'<length rest. k \<noteq> k' \<longrightarrow>
           hasBalance s2 (rest ! k) \<longrightarrow> hasBalance s2 (rest ! k') \<longrightarrow> g (Suc i + k) \<noteq> g (Suc i + k')"
    proof (intro allI impI)
      fix k k' assume "k < length rest" "k' < length rest" "k \<noteq> k'"
        "hasBalance s2 (rest ! k)" "hasBalance s2 (rest ! k')"
      then show "g (Suc i + k) \<noteq> g (Suc i + k')"
        using Cons.prems(3) [rule_format, of "Suc k" "Suc k'"] by (simp add: h2)
    qed
    from Cons.IH [OF len p2 p3] obtain s' where s':
      "fixFlags (Suc i) rest cln s2 = Return s'" "actions s' = actions s2"
      "nextAction s' = nextAction s2" "nextFilter s' = nextFilter s2" "balances s' = balances s2"
      "\<forall>q. (\<forall>k<length rest. hasBalance s2 (rest ! k) \<longrightarrow> q \<noteq> g (Suc i + k)) \<longrightarrow> filters s' q = filters s2 q"
      "\<forall>k<length rest. \<forall>b. Balance (actions s2 (rest ! k)) = Some b \<longrightarrow> filters s' (g (Suc i + k)) = filters s2 b"
      by blast
    have "fixFlags i (act # rest) cln s = Return s'" using step s'(1) by simp
    moreover have "\<forall>q. (\<forall>k<length (act # rest). hasBalance s ((act # rest) ! k) \<longrightarrow> q \<noteq> g (i + k)) \<longrightarrow>
                filters s' q = filters s q"
    proof (intro allI impI)
      fix q assume q: "\<forall>k<length (act # rest). hasBalance s ((act # rest) ! k) \<longrightarrow> q \<noteq> g (i + k)"
      have "\<forall>k<length rest. hasBalance s2 (rest ! k) \<longrightarrow> q \<noteq> g (Suc i + k)"
      proof (intro allI impI)
        fix k assume "k < length rest" "hasBalance s2 (rest ! k)"
        then show "q \<noteq> g (Suc i + k)" using q [rule_format, of "Suc k"] by (simp add: h2)
      qed
      with s'(6) have "filters s' q = filters s2 q" by blast
      moreover have "q \<noteq> g i" using q [rule_format, of 0] hb by simp
      ultimately show "filters s' q = filters s q" by (simp add: f2)
    qed
    moreover have "\<forall>k<length (act # rest). \<forall>b. Balance (actions s ((act # rest) ! k)) = Some b \<longrightarrow>
                filters s' (g (i + k)) = filters s b"
    proof (intro allI impI)
      fix k b' assume k: "k < length (act # rest)" and b': "Balance (actions s ((act # rest) ! k)) = Some b'"
      show "filters s' (g (i + k)) = filters s b'"
      proof (cases k)
        case 0
        with b' Some have bb: "b' = b" by simp
        have "\<forall>k<length rest. hasBalance s2 (rest ! k) \<longrightarrow> g i \<noteq> g (Suc i + k)"
        proof (intro allI impI)
          fix k assume "k < length rest" "hasBalance s2 (rest ! k)"
          then show "g i \<noteq> g (Suc i + k)"
            using Cons.prems(3) [rule_format, of 0 "Suc k"] hb by (simp add: h2)
        qed
        with s'(6) have "filters s' (g i) = filters s2 (g i)" by blast
        then show ?thesis using 0 bb by (simp add: s2_def)
      next
        case (Suc k')
        with k b' have k': "k' < length rest" "Balance (actions s2 (rest ! k')) = Some b'" by (simp_all add: a2)
        with s'(7) have "filters s' (g (Suc i + k')) = filters s2 b'" by blast
        moreover have "b' \<noteq> g i" using p2 k' b(2) by fastforce
        ultimately show ?thesis using Suc by (simp add: f2)
      qed
    qed
    ultimately show ?thesis using s'(2-5) by (simp add: s2_def)
  qed
qed

text \<open>
  C9. For every list of allocated actions, \<open>Actions.Clone\<close> returns a deep copy and does
  not panic: the clone has as many actions as the original, each a new object (at an
  address that was free before) with the exported fields of its original and, where the
  original has a balance filter, a filter of its own (a new object shared with no other
  action of the clone) equal to the original's filter; so a flag \<open>Disabled\<close> or \<open>Blocker\<close>
  that is explicitly false in the original is explicitly false in the clone, not absent.
  Cloning leaves every object of the heap before the call as it was, and so does any
  later write to an action of the clone (\<open>v\<close>) or to its filter (\<open>w\<close>).
\<close>

theorem Actions_Clone_deep_copy:
  assumes wf: "\<forall>a\<in>set apl. a < nextAction st \<and>
                 (\<forall>b. Balance (actions st a) = Some b \<longrightarrow> b < nextFilter st)"
  shows "\<exists>cln st'. Actions_Clone apl st = Return (cln, st') \<and>
           length cln = length apl \<and> distinct cln \<and>
           (\<forall>p<nextAction st. actions st' p = actions st p) \<and>
           (\<forall>q<nextFilter st. filters st' q = filters st q) \<and>
           (\<forall>i<length apl.
              nextAction st \<le> cln ! i \<and>
              actions st' (cln ! i) =
                (actions st (apl ! i))\<lparr>Balance := Balance (actions st' (cln ! i)), balanceValue := 0\<rparr> \<and>
              (case Balance (actions st (apl ! i)) of
                 None \<Rightarrow> Balance (actions st' (cln ! i)) = None
               | Some b \<Rightarrow>
                   (\<exists>cb. Balance (actions st' (cln ! i)) = Some cb \<and> nextFilter st \<le> cb \<and>
                         filters st' cb = filters st b \<and>
                         (\<forall>j<length apl. j \<noteq> i \<longrightarrow> Balance (actions st' (cln ! j)) \<noteq> Some cb) \<and>
                         (\<forall>w. \<forall>q<nextFilter st. ((filters st')(cb := w)) q = filters st q))) \<and>
              (\<forall>v. \<forall>p<nextAction st. ((actions st')(cln ! i := v)) p = actions st p))"
proof -
  let ?A = "nextAction st" and ?F = "nextFilter st" and ?n = "length apl"
  define g where "g j = ?F + filterCount st (take j apl)" for j
  obtain cln s1 where cl: "utils_Clone_slice apl st = (cln, s1)"
    by (cases "utils_Clone_slice apl st")
  with utils_Clone_slice_cloned [OF wf] have sc: "sliceCloned st apl cln s1" by simp
  then have cln: "cln = [?A ..< ?A + ?n]"
    and low: "\<And>p. p < ?A \<Longrightarrow> actions s1 p = actions st p"
    and lowf: "\<And>q. q < ?F \<Longrightarrow> filters s1 q = filters st q"
    and act: "\<And>i. i < ?n \<Longrightarrow> actions s1 (?A + i) =
          (actions st (apl ! i))\<lparr>Balance := map_option (\<lambda>_. g i) (Balance (actions st (apl ! i))),
                                 balanceValue := 0\<rparr>"
    and flt: "\<And>i b. i < ?n \<Longrightarrow> Balance (actions st (apl ! i)) = Some b \<Longrightarrow>
           filters s1 (g i) = gobFilter (filters st b)"
    by (simp_all add: sliceCloned_def g_def)
  have nth: "\<And>i. i < ?n \<Longrightarrow> cln ! i = ?A + i" by (simp add: cln)
  have orig: "\<And>i. i < ?n \<Longrightarrow> actions s1 (apl ! i) = actions st (apl ! i)"
    using wf low by simp
  have hb: "hasBalance s1 (apl ! i) = hasBalance st (apl ! i)" if "i < ?n" for i
    using orig [OF that] by (simp add: hasBalance_def)
  have ginj: "g k \<noteq> g k'" if "k < ?n" "k' < ?n" "k < k'" "hasBalance st (apl ! k)" for k k'
  proof -
    have "filterCount st (take k (take k' apl)) < filterCount st (take k' apl)"
      by (rule filterCount_take_less) (use that in simp_all)
    moreover have "take k (take k' apl) = take k apl" using that by (simp add: min_def)
    ultimately show ?thesis by (simp add: g_def)
  qed
  have p1: "0 + length apl \<le> length cln" by (simp add: cln)
  have p2: "\<forall>k<length apl. \<forall>b. Balance (actions s1 (apl ! k)) = Some b \<longrightarrow>
           b < ?F \<and> ?F \<le> g (0 + k) \<and> Balance (actions s1 (cln ! (0 + k))) = Some (g (0 + k)) \<and>
           filters s1 (g (0 + k)) = gobFilter (filters s1 b)"
  proof (intro allI impI)
    fix k b assume k: "k < ?n" and b: "Balance (actions s1 (apl ! k)) = Some b"
    then have b0: "Balance (actions st (apl ! k)) = Some b" by (simp add: orig)
    with wf k have bF: "b < ?F" by (metis nth_mem)
    show "b < ?F \<and> ?F \<le> g (0 + k) \<and> Balance (actions s1 (cln ! (0 + k))) = Some (g (0 + k)) \<and>
           filters s1 (g (0 + k)) = gobFilter (filters s1 b)"
      using bF b0 k by (simp add: nth act flt lowf) (simp add: g_def)
  qed
  have p3: "\<forall>k<length apl. \<forall>k'<length apl. k \<noteq> k' \<longrightarrow>
           hasBalance s1 (apl ! k) \<longrightarrow> hasBalance s1 (apl ! k') \<longrightarrow> g (0 + k) \<noteq> g (0 + k')"
  proof (intro allI impI)
    fix k k' assume "k < ?n" "k' < ?n" "k \<noteq> k'" "hasBalance s1 (apl ! k)" "hasBalance s1 (apl ! k')"
    then show "g (0 + k) \<noteq> g (0 + k')"
      using ginj [of k k'] ginj [of k' k] by (cases "k < k'") (auto simp: hb)
  qed
  from fixFlags_restores [OF p1 p2 p3] obtain s' where s':
    "fixFlags 0 apl cln s1 = Return s'" "actions s' = actions s1"
    "\<forall>q. (\<forall>k<length apl. hasBalance s1 (apl ! k) \<longrightarrow> q \<noteq> g (0 + k)) \<longrightarrow> filters s' q = filters s1 q"
    "\<forall>k<length apl. \<forall>b. Balance (actions s1 (apl ! k)) = Some b \<longrightarrow> filters s' (g (0 + k)) = filters s1 b"
    by blast
  have res: "Actions_Clone apl st = Return (cln, s')"
    by (simp add: Actions_Clone_def cl s'(1))
  have keepf: "filters s' q = filters st q" if "q < ?F" for q
  proof -
    have "\<forall>k<length apl. hasBalance s1 (apl ! k) \<longrightarrow> q \<noteq> g (0 + k)"
      using that by (simp add: g_def)
    with s'(3) have "filters s' q = filters s1 q" by blast
    with that show ?thesis by (simp add: lowf)
  qed
  have per: "nextAction st \<le> cln ! i \<and>
              actions s' (cln ! i) =
                (actions st (apl ! i))\<lparr>Balance := Balance (actions s' (cln ! i)), balanceValue := 0\<rparr> \<and>
              (case Balance (actions st (apl ! i)) of
                 None \<Rightarrow> Balance (actions s' (cln ! i)) = None
               | Some b \<Rightarrow>
                   (\<exists>cb. Balance (actions s' (cln ! i)) = Some cb \<and> nextFilter st \<le> cb \<and>
                         filters s' cb = filters st b \<and>
                         (\<forall>j<length apl. j \<noteq> i \<longrightarrow> Balance (actions s' (cln ! j)) \<noteq> Some cb) \<and>
                         (\<forall>w. \<forall>q<nextFilter st. ((filters s')(cb := w)) q = filters st q))) \<and>
              (\<forall>v. \<forall>p<nextAction st. ((actions s')(cln ! i := v)) p = actions st p)"
    if i: "i < ?n" for i
  proof (intro conjI)
    show "?A \<le> cln ! i" using i by (simp add: nth)
    show "actions s' (cln ! i) =
                (actions st (apl ! i))\<lparr>Balance := Balance (actions s' (cln ! i)), balanceValue := 0\<rparr>"
      using i by (simp add: nth s'(2) act)
    show "\<forall>v. \<forall>p<nextAction st. ((actions s')(cln ! i := v)) p = actions st p"
      using i by (simp add: nth s'(2) low)
    show "case Balance (actions st (apl ! i)) of
                 None \<Rightarrow> Balance (actions s' (cln ! i)) = None
               | Some b \<Rightarrow>
                   (\<exists>cb. Balance (actions s' (cln ! i)) = Some cb \<and> nextFilter st \<le> cb \<and>
                         filters s' cb = filters st b \<and>
                         (\<forall>j<length apl. j \<noteq> i \<longrightarrow> Balance (actions s' (cln ! j)) \<noteq> Some cb) \<and>
                         (\<forall>w. \<forall>q<nextFilter st. ((filters s')(cb := w)) q = filters st q))"
    proof (cases "Balance (actions st (apl ! i))")
      case None
      then show ?thesis using i by (simp add: nth s'(2) act)
    next
      case (Some b)
      with wf i have bF: "b < ?F" by (metis nth_mem)
      have hi: "hasBalance st (apl ! i)" using Some by (simp add: hasBalance_def)
      have 1: "Balance (actions s' (cln ! i)) = Some (g i)"
        using i Some by (simp add: nth s'(2) act)
      have 2: "?F \<le> g i" by (simp add: g_def)
      have 3: "filters s' (g i) = filters st b"
        using s'(4) [rule_format, of i b] i Some bF by (simp add: orig lowf)
      have 4: "\<forall>j<length apl. j \<noteq> i \<longrightarrow> Balance (actions s' (cln ! j)) \<noteq> Some (g i)"
      proof (intro allI impI)
        fix j assume j: "j < ?n" "j \<noteq> i"
        show "Balance (actions s' (cln ! j)) \<noteq> Some (g i)"
        proof (cases "Balance (actions st (apl ! j))")
          case None
          then show ?thesis using j by (simp add: nth s'(2) act)
        next
          case Some': (Some b')
          then have "hasBalance st (apl ! j)" by (simp add: hasBalance_def)
          with hi i j have "g j \<noteq> g i"
            using ginj [of i j] ginj [of j i] by (cases "i < j") auto
          then show ?thesis using j Some' by (simp add: nth s'(2) act)
        qed
      qed
      have 5: "\<forall>w. \<forall>q<nextFilter st. ((filters s')(g i := w)) q = filters st q"
        using 2 keepf by auto
      from 1 2 3 4 5 Some show ?thesis by simp
    qed
  qed
  have "length cln = length apl" "distinct cln" by (simp_all add: cln)
  moreover have "\<forall>p<nextAction st. actions s' p = actions st p" by (simp add: s'(2) low)
  moreover have "\<forall>q<nextFilter st. filters s' q = filters st q" using keepf by simp
  ultimately show ?thesis using res per by blast
qed

theorem Actions_Clone_deep_copy_witness:
  "(0 < nextAction twoActionStore \<and> Balance (actions twoActionStore 0) = Some 0 \<and>
    0 < nextFilter twoActionStore \<and> 1 < nextAction twoActionStore \<and>
    Balance (actions twoActionStore 1) = None) \<and>
   (\<exists>cln st'. Actions_Clone [0, 1] twoActionStore = Return (cln, st') \<and>
      length cln = 2 \<and> 2 \<le> cln ! 0 \<and> 2 \<le> cln ! 1 \<and>
      ActionType (actions st' (cln ! 0)) = ''*topup'' \<and>
      Balance (actions st' (cln ! 1)) = None \<and>
      (\<exists>cb. Balance (actions st' (cln ! 0)) = Some cb \<and> 1 \<le> cb \<and>
            Disabled_bf (filters st' cb) = Some False \<and> Blocker_bf (filters st' cb) = None \<and>
            Disabled_bf (((filters st')(cb := zeroFilter)) 0) = Some False))"
proof -
  have h: "\<forall>a\<in>set [0, 1]. a < nextAction twoActionStore \<and>
             (\<forall>b. Balance (actions twoActionStore a) = Some b \<longrightarrow> b < nextFilter twoActionStore)"
    by (simp add: twoActionStore_def emptyStore_def zeroAction_def)
  from Actions_Clone_deep_copy [OF h] obtain cln st' where r:
    "Actions_Clone [0, 1] twoActionStore = Return (cln, st')" "length cln = length [0::nat, 1]"
    "\<forall>i<length [0::nat, 1].
        nextAction twoActionStore \<le> cln ! i \<and>
        actions st' (cln ! i) =
          (actions twoActionStore ([0, 1] ! i))\<lparr>Balance := Balance (actions st' (cln ! i)), balanceValue := 0\<rparr> \<and>
        (case Balance (actions twoActionStore ([0, 1] ! i)) of
           None \<Rightarrow> Balance (actions st' (cln ! i)) = None
         | Some b \<Rightarrow>
             (\<exists>cb. Balance (actions st' (cln ! i)) = Some cb \<and> nextFilter twoActionStore \<le> cb \<and>
                   filters st' cb = filters twoActionStore b \<and>
                   (\<forall>j<length [0::nat, 1]. j \<noteq> i \<longrightarrow> Balance (actions st' (cln ! j)) \<noteq> Some cb) \<and>
                   (\<forall>w. \<forall>q<nextFilter twoActionStore. ((filters st')(cb := w)) q = filters twoActionStore q))) \<and>
        (\<forall>v. \<forall>p<nextAction twoActionStore. ((actions st')(cln ! i := v)) p = actions twoActionStore p)"
    by blast
  from r(3) [rule_format, of 0] obtain cb where cb:
    "2 \<le> cln ! 0" "ActionType (actions st' (cln ! 0)) = ''*topup''"
    "Balance (actions st' (cln ! 0)) = Some cb" "1 \<le> cb"
    "filters st' cb = filters twoActionStore 0"
    "\<forall>w. \<forall>q<nextFilter twoActionStore. ((filters st')(cb := w)) q = filters twoActionStore q"
    by (auto simp: twoActionStore_def emptyStore_def zeroAction_def)
  from r(3) [rule_format, of 1] have one:
    "2 \<le> cln ! 1" "Balance (actions st' (cln ! 1)) = None"
    by (auto simp: twoActionStore_def emptyStore_def zeroAction_def)
  from cb(6) [rule_format, of 0 zeroFilter]
  have "Disabled_bf (((filters st')(cb := zeroFilter)) 0) = Some False"
    by (simp add: twoActionStore_def emptyStore_def zeroFilter_def)
  moreover have "Disabled_bf (filters st' cb) = Some False" "Blocker_bf (filters st' cb) = None"
    using cb(5) by (simp_all add: twoActionStore_def emptyStore_def zeroFilter_def)
  moreover have "0 < nextAction twoActionStore \<and> Balance (actions twoActionStore 0) = Some 0 \<and>
    0 < nextFilter twoActionStore \<and> 1 < nextAction twoActionStore \<and>
    Balance (actions twoActionStore 1) = None"
    by (simp add: twoActionStore_def emptyStore_def zeroAction_def)
  ultimately show ?thesis using r(1,2) cb(1-4) one by auto
qed

subsection \<open>\<open>removeBalanceAction\<close>\<close>

lemma mset_swap_last_remove:
  assumes "i < length xs"
  shows "mset (butlast (xs[i := last xs])) = mset xs - {#xs ! i#}"
proof (cases xs rule: rev_cases)
  case Nil
  with assms show ?thesis by simp
next
  case (snoc ys l)
  show ?thesis
  proof (cases "i < length ys")
    case True
    then have "butlast (xs[i := last xs]) = ys[i := l]"
      by (simp add: snoc list_update_append)
    moreover have "mset (ys[i := l]) = mset ys - {#ys ! i#} + {#l#}"
      using True by (simp add: mset_update)
    ultimately show ?thesis using True by (simp add: snoc nth_append)
  next
    case False
    with assms snoc have "i = length ys" by simp
    then show ?thesis by (simp add: snoc list_update_append)
  qed
qed

lemma removeLoop_mset:
  "(\<forall>k<i. k < length bChain \<longrightarrow> \<not> m (bals (bChain ! k))) \<Longrightarrow>
   mset (fst (removeLoop m bals bChain i found)) = mset (filter (\<lambda>p. \<not> m (bals p)) bChain)"
proof (induction m bals bChain i found rule: removeLoop.induct)
  case (1 m bals bChain i found)
  show ?case
  proof (cases "i < length bChain")
    case False
    with "1.prems" have "\<forall>p\<in>set bChain. \<not> m (bals p)"
      by (metis in_set_conv_nth not_less order_less_le_trans)
    then have "filter (\<lambda>p. \<not> m (bals p)) bChain = bChain" by simp
    with False show ?thesis by (subst removeLoop.simps) simp
  next
    case True
    show ?thesis
    proof (cases "m (bals (bChain ! i))")
      case match: True
      let ?b' = "butlast (bChain[i := last bChain])"
      have pre: "\<forall>k<i. k < length ?b' \<longrightarrow> \<not> m (bals (?b' ! k))"
        using "1.prems" by (simp add: nth_butlast)
      have ms: "mset ?b' = mset bChain - {#bChain ! i#}"
        using True by (rule mset_swap_last_remove)
      have "mset (filter (\<lambda>p. \<not> m (bals p)) ?b') = filter_mset (\<lambda>p. \<not> m (bals p)) (mset ?b')"
        by simp
      also have "\<dots> = filter_mset (\<lambda>p. \<not> m (bals p)) (mset bChain)"
        using match by (simp add: ms filter_diff_mset)
      finally have "mset (filter (\<lambda>p. \<not> m (bals p)) ?b') = mset (filter (\<lambda>p. \<not> m (bals p)) bChain)"
        by simp
      with "1.IH"(1) [OF True match pre] True match show ?thesis
        by (subst removeLoop.simps) simp
    next
      case False
      have pre: "\<forall>k<Suc i. k < length bChain \<longrightarrow> \<not> m (bals (bChain ! k))"
        using "1.prems" False by (auto simp: less_Suc_eq)
      from "1.IH"(2) [OF True False pre] True False show ?thesis
        by (subst removeLoop.simps) simp
    qed
  qed
qed

lemma removeLoop_found:
  "snd (removeLoop m bals bChain i found) \<longleftrightarrow>
     found \<or> (\<exists>k. i \<le> k \<and> k < length bChain \<and> m (bals (bChain ! k)))"
proof (induction m bals bChain i found rule: removeLoop.induct)
  case (1 m bals bChain i found)
  show ?case
  proof (cases "i < length bChain")
    case False
    then show ?thesis by (subst removeLoop.simps) auto
  next
    case True
    show ?thesis
    proof (cases "m (bals (bChain ! i))")
      case match: True
      with "1.IH"(1) [OF True match] True show ?thesis
        by (subst removeLoop.simps) auto
    next
      case False
      have "(\<exists>k. Suc i \<le> k \<and> k < length bChain \<and> m (bals (bChain ! k))) \<longleftrightarrow>
            (\<exists>k. i \<le> k \<and> k < length bChain \<and> m (bals (bChain ! k)))"
        using False by (metis Suc_leD Suc_leI le_neq_implies_less)
      with "1.IH"(2) [OF True False] True False show ?thesis
        by (subst removeLoop.simps) simp
    qed
  qed
qed

lemma removeLoop_no_match:
  "\<forall>p\<in>set bChain. \<not> m (bals p) \<Longrightarrow> removeLoop m bals bChain i found = (bChain, found)"
proof (induction m bals bChain i found rule: removeLoop.induct)
  case (1 m bals bChain i found)
  show ?case
  proof (cases "i < length bChain")
    case False
    then show ?thesis by (subst removeLoop.simps) simp
  next
    case True
    with "1.prems" have nm: "\<not> m (bals (bChain ! i))" by simp
    from "1.IH"(2) [OF True nm "1.prems"] True nm show ?thesis
      by (subst removeLoop.simps) simp
  qed
qed

text \<open>
  C7. For every non-nil account, \<open>removeBalanceAction\<close> returns the not-found error when
  the bucket named by the type of the action's filter does not exist, and when no balance
  of the bucket matches the filter; in both cases the account, and so the bucket, is left
  as it was. When a balance matches, it returns no error and the bucket it stores holds
  the balances that do not match, each as often as before, and none that matches. A match
  at index \<open>i\<close> is removed by moving the last element to \<open>i\<close> and cutting the last element
  off, so the order of the bucket is not kept.
\<close>

theorem removeBalanceAction_not_found_or_removed:
  "removeBalanceAction MatchFilter (Some acc) sq a acs st =
     (case BalanceMap acc (getType st a) of
        None \<Rightarrow> (Some ErrNotFound, Some acc)
      | Some bChain \<Rightarrow>
          if \<forall>p\<in>set bChain. \<not> MatchFilter (balances st p) (filterOf st a) False False
          then (Some ErrNotFound, Some acc)
          else (None, Some (acc\<lparr>BalanceMap := (BalanceMap acc)(getType st a \<mapsto>
                  fst (removeLoop (\<lambda>b. MatchFilter b (filterOf st a) False False) (balances st)
                         bChain 0 False))\<rparr>))) \<and>
   mset (fst (removeLoop (\<lambda>b. MatchFilter b (filterOf st a) False False) (balances st) bChain 0 False)) =
     mset (filter (\<lambda>p. \<not> MatchFilter (balances st p) (filterOf st a) False False) bChain) \<and>
   (i < length bChain \<longrightarrow> MatchFilter (balances st (bChain ! i)) (filterOf st a) False False \<longrightarrow>
      removeLoop (\<lambda>b. MatchFilter b (filterOf st a) False False) (balances st) bChain i found =
      removeLoop (\<lambda>b. MatchFilter b (filterOf st a) False False) (balances st)
        (butlast (bChain[i := last bChain])) i True)"
proof (intro conjI impI)
  let ?m = "\<lambda>b. MatchFilter b (filterOf st a) False False"
  show "mset (fst (removeLoop ?m (balances st) bChain 0 False)) =
     mset (filter (\<lambda>p. \<not> ?m (balances st p)) bChain)"
    by (rule removeLoop_mset) simp
  show "removeLoop ?m (balances st) bChain i found =
      removeLoop ?m (balances st) (butlast (bChain[i := last bChain])) i True"
    if "i < length bChain" "?m (balances st (bChain ! i))"
    using that by (subst removeLoop.simps) simp
  show "removeBalanceAction MatchFilter (Some acc) sq a acs st =
     (case BalanceMap acc (getType st a) of
        None \<Rightarrow> (Some ErrNotFound, Some acc)
      | Some bChain \<Rightarrow>
          if \<forall>p\<in>set bChain. \<not> ?m (balances st p)
          then (Some ErrNotFound, Some acc)
          else (None, Some (acc\<lparr>BalanceMap := (BalanceMap acc)(getType st a \<mapsto>
                  fst (removeLoop ?m (balances st) bChain 0 False))\<rparr>)))"
  proof (cases "BalanceMap acc (getType st a)")
    case None
    then show ?thesis by (simp add: removeBalanceAction_def)
  next
    case (Some bc)
    show ?thesis
    proof (cases "\<forall>p\<in>set bc. \<not> ?m (balances st p)")
      case True
      then have "removeLoop ?m (balances st) bc 0 False = (bc, False)"
        by (rule removeLoop_no_match)
      moreover have "acc\<lparr>BalanceMap := (BalanceMap acc)(getType st a \<mapsto> bc)\<rparr> = acc"
        using Some by (simp add: map_upd_triv)
      ultimately show ?thesis using Some True by (simp add: removeBalanceAction_def)
    next
      case False
      then have "\<exists>k. 0 \<le> k \<and> k < length bc \<and> ?m (balances st (bc ! k))"
        by (auto simp: in_set_conv_nth)
      then have "snd (removeLoop ?m (balances st) bc 0 False)"
        by (simp add: removeLoop_found)
      then obtain bc' where "removeLoop ?m (balances st) bc 0 False = (bc', True)"
        by (cases "removeLoop ?m (balances st) bc 0 False") simp
      with Some False show ?thesis
        by (simp add: removeBalanceAction_def)
    qed
  qed
qed

theorem removeBalanceAction_not_found_or_removed_witness:
  "removeBalanceAction matchID (Some bucketAccount) None 0 [] bucketStore =
     (None, Some (bucketAccount\<lparr>BalanceMap := [''*monetary'' \<mapsto> [13, 11]]\<rparr>)) \<and>
   removeLoop (\<lambda>b. matchID b (filterOf bucketStore 0) False False) (balances bucketStore)
     [10, 11, 12, 13] 0 False = ([13, 11], True)"
proof -
  let ?m = "\<lambda>b. matchID b (filterOf bucketStore 0) False False"
  have t: "getType bucketStore 0 = ''*monetary''"
    by (simp add: getType_def filterOf_def bucketStore_def emptyStore_def zeroAction_def zeroFilter_def)
  have bm: "BalanceMap bucketAccount = [''*monetary'' \<mapsto> [10, 11, 12, 13]]"
    by (simp add: bucketAccount_def someAccount_def)
  have m: "?m (balances bucketStore 10)" "\<not> ?m (balances bucketStore 11)"
    "?m (balances bucketStore 12)" "\<not> ?m (balances bucketStore 13)"
    by (simp_all add: matchID_def filterOf_def bucketStore_def emptyStore_def zeroAction_def
        zeroFilter_def zeroBalance_def)
  have l: "removeLoop ?m (balances bucketStore) [10, 11, 12, 13] 0 False = ([13, 11], True)"
    using m by (simp add: removeLoop.simps)
  from removeBalanceAction_not_found_or_removed
         [of matchID bucketAccount None 0 "[]" bucketStore "[10, 11, 12, 13]" 0 False]
  have "removeBalanceAction matchID (Some bucketAccount) None 0 [] bucketStore =
     (None, Some (bucketAccount\<lparr>BalanceMap := [''*monetary'' \<mapsto> [13, 11]]\<rparr>))"
    using m by (simp add: t bm l)
  with l show ?thesis by simp
qed

subsection \<open>\<open>transferMonetaryDefaultAction\<close>\<close>

lemma transferable_not_default: "transferable m d bals p \<Longrightarrow> p \<noteq> d"
  by (auto simp: transferable_def)

lemma transferLoop_spec:
  "transferLoop m d xs bals = bals' \<Longrightarrow>
   (\<forall>p\<in>set xs. transferable m d bals p \<longrightarrow> bals' p = (bals p)\<lparr>Value := 0\<rparr>) \<and>
   bals' d = (bals d)\<lparr>Value := Value (bals d) +
                (\<Sum>p\<in>{p \<in> set xs. transferable m d bals p}. Value (bals p))\<rparr> \<and>
   (\<forall>q. q \<noteq> d \<longrightarrow> \<not> (q \<in> set xs \<and> transferable m d bals q) \<longrightarrow> bals' q = bals q)"
proof (induction xs arbitrary: bals bals')
  case Nil
  then show ?case by simp
next
  case (Cons x xs)
  let ?T = "\<lambda>ys b. {p \<in> set ys. transferable m d b p}"
  show ?case
  proof (cases "transferable m d bals x")
    case False
    then have step: "transferLoop m d xs bals = bals'"
      using Cons.prems by (auto simp: transferable_def split: if_splits)
    have T: "?T (x # xs) bals = ?T xs bals" using False by auto
    from Cons.IH [OF step] show ?thesis
      unfolding T using False by auto
  next
    case True
    then have xd: "x \<noteq> d" by (rule transferable_not_default)
    define bals1 where
      "bals1 = bals(d := (bals d)\<lparr>Value := Value (bals d) + Value (bals x)\<rparr>, x := (bals x)\<lparr>Value := 0\<rparr>)"
    have step: "transferLoop m d xs bals1 = bals'"
      using Cons.prems True xd by (simp add: transferable_def bals1_def Let_def)
    have same: "transferable m d bals1 p = transferable m d bals p" if "p \<noteq> x" for p
      using that xd by (cases "p = d") (simp_all add: transferable_def bals1_def)
    have notx: "\<not> transferable m d bals1 x" by (simp add: transferable_def bals1_def)
    have T1: "?T xs bals1 = ?T xs bals - {x}"
    proof (rule set_eqI)
      fix p show "p \<in> ?T xs bals1 \<longleftrightarrow> p \<in> ?T xs bals - {x}"
        using same [of p] notx by (cases "p = x") auto
    qed
    have T: "?T (x # xs) bals = insert x (?T xs bals)" using True by auto
    have fin: "finite (?T xs bals)" by simp
    have sum1: "(\<Sum>p\<in>?T xs bals1. Value (bals1 p)) = (\<Sum>p\<in>?T xs bals - {x}. Value (bals p))"
      unfolding T1
    proof (rule sum.cong [OF refl])
      fix p assume "p \<in> ?T xs bals - {x}"
      then have "p \<noteq> x" "p \<noteq> d" by (auto dest: transferable_not_default)
      then show "Value (bals1 p) = Value (bals p)" by (simp add: bals1_def)
    qed
    have sum2: "(\<Sum>p\<in>insert x (?T xs bals). Value (bals p)) =
                Value (bals x) + (\<Sum>p\<in>?T xs bals - {x}. Value (bals p))"
      using fin by (rule sum.insert_remove)
    from Cons.IH [OF step] have IH:
      "\<forall>p\<in>set xs. transferable m d bals1 p \<longrightarrow> bals' p = (bals1 p)\<lparr>Value := 0\<rparr>"
      "bals' d = (bals1 d)\<lparr>Value := Value (bals1 d) + (\<Sum>p\<in>?T xs bals1. Value (bals1 p))\<rparr>"
      "\<forall>q. q \<noteq> d \<longrightarrow> \<not> (q \<in> set xs \<and> transferable m d bals1 q) \<longrightarrow> bals' q = bals1 q"
      by blast+
    have x': "bals' x = (bals x)\<lparr>Value := 0\<rparr>"
      using IH(3) [rule_format, of x] xd notx by (simp add: bals1_def)
    have 1: "\<forall>p\<in>set (x # xs). transferable m d bals p \<longrightarrow> bals' p = (bals p)\<lparr>Value := 0\<rparr>"
    proof (intro ballI impI)
      fix p assume p: "p \<in> set (x # xs)" "transferable m d bals p"
      show "bals' p = (bals p)\<lparr>Value := 0\<rparr>"
      proof (cases "p = x")
        case True
        then show ?thesis using x' by simp
      next
        case False
        with p have "p \<in> set xs" "transferable m d bals1 p" "p \<noteq> d"
          by (auto simp: same dest: transferable_not_default)
        with IH(1) False show ?thesis by (simp add: bals1_def)
      qed
    qed
    have 2: "bals' d = (bals d)\<lparr>Value := Value (bals d) +
                (\<Sum>p\<in>?T (x # xs) bals. Value (bals p))\<rparr>"
      using IH(2) xd unfolding T sum2 sum1 by (simp add: bals1_def add.assoc)
    have 3: "\<forall>q. q \<noteq> d \<longrightarrow> \<not> (q \<in> set (x # xs) \<and> transferable m d bals q) \<longrightarrow> bals' q = bals q"
    proof (intro allI impI)
      fix q assume q: "q \<noteq> d" "\<not> (q \<in> set (x # xs) \<and> transferable m d bals q)"
      with True have qx: "q \<noteq> x" by auto
      with q have "\<not> (q \<in> set xs \<and> transferable m d bals1 q)" by (simp add: same)
      with IH(3) q(1) have "bals' q = bals1 q" by blast
      with q(1) qx show "bals' q = bals q" by (simp add: bals1_def)
    qed
    from 1 2 3 show ?thesis by blast
  qed
qed

text \<open>
  C8, amended. For every non-nil account with a monetary bucket,
  \<open>transferMonetaryDefaultAction\<close> returns no error and moves onto the default balance \<open>d\<close>
  the value of every balance of the bucket that matches the action's filter, has a
  positive value, and has neither the \<open>Uuid\<close> nor the \<open>ID\<close> of the default balance (the set
  \<open>T\<close>): each of them is set to zero and the default balance grows by their sum. The
  default balance is not in \<open>T\<close>, and every other balance, those with a value \<open>\<le> 0\<close> and
  those that share the \<open>Uuid\<close> or the \<open>ID\<close> of the default balance among them, is left as
  it was.
\<close>

theorem transferMonetaryDefault_transfers:
  assumes "BalanceMap ac MONETARY \<noteq> None"
    and "GetDefaultMoneyBalance ac st = (d, ac1, st1)"
    and "bChain = (case BalanceMap ac1 MONETARY of None \<Rightarrow> [] | Some c \<Rightarrow> c)"
    and "T = {p \<in> set bChain.
               Uuid (balances st1 p) \<noteq> Uuid (balances st1 d) \<and>
               ID_b (balances st1 p) \<noteq> ID_b (balances st1 d) \<and>
               MatchFilter (balances st1 p) (filterOf st1 a) False False \<and>
               0 < Value (balances st1 p)}"
  shows "case transferMonetaryDefaultAction GetDefaultMoneyBalance MatchFilter MONETARY (Some ac)
                sq a acs st of
           (err, ub', st') \<Rightarrow>
             err = None \<and> ub' = Some ac1 \<and> d \<notin> T \<and>
             (\<forall>p\<in>T. balances st' p = (balances st1 p)\<lparr>Value := 0\<rparr>) \<and>
             balances st' d =
               (balances st1 d)\<lparr>Value := Value (balances st1 d) + (\<Sum>p\<in>T. Value (balances st1 p))\<rparr> \<and>
             (\<forall>q. q \<noteq> d \<longrightarrow> q \<notin> T \<longrightarrow> balances st' q = balances st1 q) \<and>
             st' = st1\<lparr>balances := balances st'\<rparr>"
proof -
  let ?m = "\<lambda>b. MatchFilter b (filterOf st1 a) False False"
  define bals' where "bals' = transferLoop ?m d bChain (balances st1)"
  have T: "T = {p \<in> set bChain. transferable ?m d (balances st1) p}"
    by (simp add: assms(4) transferable_def)
  have run: "transferMonetaryDefaultAction GetDefaultMoneyBalance MatchFilter MONETARY (Some ac)
                sq a acs st = (None, Some ac1, st1\<lparr>balances := bals'\<rparr>)"
    using assms(1-3) by (auto simp: transferMonetaryDefaultAction_def bals'_def)
  from transferLoop_spec [OF bals'_def [symmetric]]
  have s: "\<forall>p\<in>set bChain. transferable ?m d (balances st1) p \<longrightarrow> bals' p = (balances st1 p)\<lparr>Value := 0\<rparr>"
    "bals' d = (balances st1 d)\<lparr>Value := Value (balances st1 d) + (\<Sum>p\<in>T. Value (balances st1 p))\<rparr>"
    "\<forall>q. q \<noteq> d \<longrightarrow> \<not> (q \<in> set bChain \<and> transferable ?m d (balances st1) q) \<longrightarrow> bals' q = balances st1 q"
    unfolding T by blast+
  have "d \<notin> T" by (simp add: assms(4))
  moreover have "\<forall>p\<in>T. bals' p = (balances st1 p)\<lparr>Value := 0\<rparr>" using s(1) by (simp add: T)
  moreover have "\<forall>q. q \<noteq> d \<longrightarrow> q \<notin> T \<longrightarrow> bals' q = balances st1 q" using s(3) by (simp add: T)
  ultimately show ?thesis using s(2) by (simp add: run)
qed

theorem transferMonetaryDefault_transfers_witness:
  "BalanceMap transferAccount ''*monetary'' \<noteq> None \<and>
   (case transferMonetaryDefaultAction (defaultAt 20) matchID ''*monetary'' (Some transferAccount)
           None 0 [] transferStore of
      (err, ub', st') \<Rightarrow>
        err = None \<and> ub' = Some transferAccount \<and>
        Value (balances st' 20) = 15 \<and> Value (balances st' 21) = 0 \<and> Value (balances st' 22) = - 3)"
proof -
  have h1: "BalanceMap transferAccount ''*monetary'' \<noteq> None"
    by (simp add: transferAccount_def someAccount_def)
  have h2: "defaultAt 20 transferAccount transferStore = (20, transferAccount, transferStore)"
    by (simp add: defaultAt_def)
  have h3: "[20, 21, 22] = (case BalanceMap transferAccount ''*monetary'' of None \<Rightarrow> [] | Some c \<Rightarrow> c)"
    by (simp add: transferAccount_def someAccount_def)
  have h4: "{21} = {p \<in> set [20, 21, 22].
               Uuid (balances transferStore p) \<noteq> Uuid (balances transferStore 20) \<and>
               ID_b (balances transferStore p) \<noteq> ID_b (balances transferStore 20) \<and>
               matchID (balances transferStore p) (filterOf transferStore 0) False False \<and>
               0 < Value (balances transferStore p)}"
    by (auto simp: transferStore_def emptyStore_def zeroBalance_def zeroAction_def matchID_def filterOf_def)
  show ?thesis
    using transferMonetaryDefault_transfers
            [where GetDefaultMoneyBalance = "defaultAt 20" and MatchFilter = matchID and a = 0
               and st = transferStore and sq = None and acs = "[]", OF h1 h2 h3 h4] h1
    by (auto simp: transferStore_def emptyStore_def zeroBalance_def)
qed

text \<open>
  C8 as stated fails: the default balance is told apart by its \<open>Uuid\<close> and by its \<open>ID\<close>,
  not by identity. In \<open>sameIdStore\<close> the balance at 21 is not the default balance (which
  is at 20), matches the filter and holds 5, but carries the same (empty) \<open>ID\<close>: nothing
  is transferred.
\<close>

theorem transferMonetaryDefault_same_id_counterexample:
  "fst sameIdRun = None \<and>
   (21::nat) \<noteq> 20 \<and>
   matchID (balances sameIdStore 21) (filterOf sameIdStore 0) False False \<and>
   0 < Value (balances sameIdStore 21) \<and>
   Value (balances (snd (snd sameIdRun)) 21) = 5 \<and>
   Value (balances (snd (snd sameIdRun)) 20) = 10"
  by (simp add: sameIdRun_def transferMonetaryDefaultAction_def defaultAt_def sameIdAccount_def
      someAccount_def sameIdStore_def emptyStore_def zeroBalance_def zeroAction_def matchID_def
      filterOf_def)

subsection \<open>\<open>removeAccountAction\<close> and \<open>cgrRPCAction\<close>\<close>

text \<open>
  C4. \<open>remove_account\<close> is idempotent at the membership lookup: for every account id, once
  the account is removed from the store, a not-found error of the lookup of the account's
  action plans is treated as success. The handler goes on with the plan ids the lookup
  returned exactly as it does when the lookup returns no error, and returns what the
  remaining steps return; so a second run on an account that is already removed does not
  fail at the lookup (the witness runs the handler twice on a storage in memory).
\<close>

theorem removeAccount_lookup_not_found_is_success:
  assumes "ID acc \<noteq> []"
    and "RemoveAccount dm (ID acc) db = (None, db1)"
    and "GetAccountActionPlans dm (ID acc) db1 = ((acntAPids, err), db2)"
    and "err = Some ErrNotFound \<or> err = None"
  shows "removeAccountAction dm AccountKey unmarshal Error (Some acc) sq a acs db =
           cleanPlans dm Error (ID acc) acntAPids db2"
  using assms by (auto simp: removeAccountAction_def guardedCleanup_def)

theorem removeAccount_lookup_not_found_is_success_witness:
  "removeAccountAction memDM concatKey noAccountInfo errorText
     (Some (someAccount\<lparr>ID := ''cgrates.org:1001''\<rparr>)) None zeroAction [] planDB = (None, removedDB) \<and>
   GetAccountActionPlans memDM ''cgrates.org:1001'' removedDB = (([], Some ErrNotFound), removedDB) \<and>
   removeAccountAction memDM concatKey noAccountInfo errorText
     (Some (someAccount\<lparr>ID := ''cgrates.org:1001''\<rparr>)) None zeroAction [] removedDB = (None, removedDB)"
proof -
  let ?acc = "someAccount\<lparr>ID := ''cgrates.org:1001''\<rparr>"
  have h1: "ID ?acc \<noteq> []" by simp
  have h2: "RemoveAccount memDM (ID ?acc) removedDB = (None, removedDB)"
    by (simp add: memDM_def removedDB_def)
  have h3: "GetAccountActionPlans memDM (ID ?acc) removedDB = (([], Some ErrNotFound), removedDB)"
    by (simp add: memDM_def removedDB_def)
  have c: "cleanPlans memDM errorText (ID ?acc) [] removedDB = (None, removedDB)"
    by (simp add: cleanPlans_def memDM_def removedDB_def)
  have second: "removeAccountAction memDM concatKey noAccountInfo errorText (Some ?acc) None zeroAction []
      removedDB = (None, removedDB)"
    using removeAccount_lookup_not_found_is_success [OF h1 h2 h3, of concatKey noAccountInfo errorText None zeroAction "[]"] c
    by simp
  have first: "removeAccountAction memDM concatKey noAccountInfo errorText (Some ?acc) None zeroAction []
      planDB = (None, removedDB)"
    by (simp add: removeAccountAction_def guardedCleanup_def cleanPlans_def memDM_def planDB_def removedDB_def)
  from first second h3 show ?thesis by simp
qed

text \<open>
  C5. If decoding \<open>req.Params\<close> into the input shape fails, \<open>cgrRPCAction\<close> is to return a
  parser error instead of invoking the remote method. It does not: the error of
  \<open>mapstructure.Decode\<close> is dropped, so the result is the same whatever that error is, and
  with a registry entry whose input shape is not nil a failing decode is followed by the
  remote call, whose result is returned.
\<close>

theorem cgrRPCAction_ignores_decode_error:
  "cgrRPCAction (env\<lparr>Decode := \<lambda>ps i. (e1, dec ps i)\<rparr>) account sq a acs st =
   cgrRPCAction (env\<lparr>Decode := \<lambda>ps i. (e2, dec ps i)\<rparr>) account sq a acs st \<and>
   fst (Decode failingDecodeEnv [(''Account'', ''true'')] (Some [])) =
     Some (External ''expected type string, got bool'') \<and>
   cgrRPCAction failingDecodeEnv None None 0 [] emptyStore =
     Return (None, Invoked ''ApierV1.SetAccount'' (Some []))"
proof (intro conjI)
  show "cgrRPCAction (env\<lparr>Decode := \<lambda>ps i. (e1, dec ps i)\<rparr>) account sq a acs st =
        cgrRPCAction (env\<lparr>Decode := \<lambda>ps i. (e2, dec ps i)\<rparr>) account sq a acs st"
    by (auto simp: cgrRPCAction_def Let_def split: sum.splits outcome.splits option.splits)
qed (simp_all add: cgrRPCAction_def failingDecodeEnv_def emptyStore_def zeroAction_def Let_def)

subsection \<open>\<open>cdrLogAction\<close>\<close>

lemma cdrLoop_logged:
  "cdrLoop k env template acc st acs cdrs0 s = Return (None, cdrs, s') \<Longrightarrow>
   \<exists>new. cdrs = cdrs0 @ new \<and>
     list_all2 (\<lambda>cdr p. \<exists>b n. Balance (actions st p) = Some b \<and>
                  synthesizeCDR k env template acc (actions st p) (filters st b) n = Return cdr)
       new (filter (logged st) acs)"
proof (induction acs arbitrary: cdrs0 s)
  case Nil
  then show ?case by simp
next
  case (Cons p rest)
  show ?case
  proof (cases "logged st p")
    case False
    with Cons show ?thesis by simp
  next
    case True
    then obtain b where b: "Balance (actions st p) = Some b" by (auto simp: logged_def)
    from Cons.prems True b obtain cdr where
      cdr: "synthesizeCDR k env template acc (actions st p) (filters st b) (length cdrs0) = Return cdr"
      by (cases "synthesizeCDR k env template acc (actions st p) (filters st b) (length cdrs0)") auto
    have "\<exists>s1. cdrLoop k env template acc st rest (cdrs0 @ [cdr]) s1 = Return (None, cdrs, s')"
      using Cons.prems True b cdr by (auto split: option.splits prod.splits)
    then obtain s1 where "cdrLoop k env template acc st rest (cdrs0 @ [cdr]) s1 = Return (None, cdrs, s')" ..
    from Cons.IH [OF this] obtain new where new: "cdrs = (cdrs0 @ [cdr]) @ new"
      "list_all2 (\<lambda>cdr p. \<exists>b n. Balance (actions st p) = Some b \<and>
                  synthesizeCDR k env template acc (actions st p) (filters st b) n = Return cdr)
         new (filter (logged st) rest)" by blast
    have "cdrs = cdrs0 @ (cdr # new)" using new(1) by simp
    moreover have "list_all2 (\<lambda>cdr p. \<exists>b n. Balance (actions st p) = Some b \<and>
                  synthesizeCDR k env template acc (actions st p) (filters st b) n = Return cdr)
         (cdr # new) (filter (logged st) (p # rest))"
      using True b cdr new(2) by auto
    ultimately show ?thesis by blast
  qed
qed


lemma cdrLoop_append:
  "cdrLoop k env template acc st (xs @ ys) cdrs s =
     (case cdrLoop k env template acc st xs cdrs s of
        Panic \<Rightarrow> Panic
      | Return (Some e, cdrs1, s1) \<Rightarrow> Return (Some e, cdrs1, s1)
      | Return (None, cdrs1, s1) \<Rightarrow> cdrLoop k env template acc st ys cdrs1 s1)"
  by (induction xs arbitrary: cdrs s)
     (simp_all split: option.splits outcome.splits prod.splits)

lemmas log_eval = cdrLogAction_def logStore_def emptyStore_def zeroAction_def zeroFilter_def
      defaultTemplate_def logConsts_def logEnv_def oneField_def logged_def DEBIT_def DEBIT_RESET_def
      TOPUP_def TOPUP_RESET_def CDRLOG_def synthesizeCDR_def parseTemplateValue_def templateSource_def
      setField_def someAccount_def debitCDR_def loggedStore_def

text \<open>
  C6, amended. Whenever \<open>cdrLogAction\<close> returns without an error, it has synthesized
  exactly one CDR per sibling action whose type is \<open>DEBIT\<close>, \<open>DEBIT_RESET\<close>, \<open>TOPUP\<close> or
  \<open>TOPUP_RESET\<close> and whose \<open>Balance\<close> is not nil, in the order of the siblings, and none
  for any other sibling: the CDRs are, one by one, those synthesized from the logged
  siblings with the template in force. When \<open>ExtraParameters\<close> does not yield a template
  (it does not decode, or one of its fields does not parse), the handler returns that error
  with no CDR synthesized and the store unchanged, whatever the siblings are. When the
  write of the CDR of a logged sibling to the CDR store fails, the loop ends at that
  sibling: the handler returns the error of the write with the CDRs synthesized up to and
  including that sibling, one per logged sibling so far, the store unchanged, and the
  siblings after it are not looked at.
\<close>

theorem cdrLogAction_one_cdr_per_logged_sibling:
  "(cdrLogAction k env acc sq a acs st s = Return (None, cdrs, st', s') \<longrightarrow>
      length cdrs = length (filter (logged st) acs) \<and>
      (\<exists>template.
         list_all2 (\<lambda>cdr p. \<exists>b n. Balance (actions st p) = Some b \<and>
                     synthesizeCDR k env template acc (actions st p) (filters st b) n = Return cdr)
           cdrs (filter (logged st) acs))) \<and>
   ((if ExtraParameters (actions st a) \<noteq> []
     then (case unmarshalTemplate env (ExtraParameters (actions st a)) of
             Inl e \<Rightarrow> Inl e
           | Inr entries \<Rightarrow> overwriteTemplate env entries (defaultTemplate k env))
     else Inr (defaultTemplate k env)) = Inl e \<longrightarrow>
      cdrLogAction k env acc sq a acs st s = Return (Some e, [], st, s)) \<and>
   ((if ExtraParameters (actions st a) \<noteq> []
     then (case unmarshalTemplate env (ExtraParameters (actions st a)) of
             Inl e \<Rightarrow> Inl e
           | Inr entries \<Rightarrow> overwriteTemplate env entries (defaultTemplate k env))
     else Inr (defaultTemplate k env)) = Inr tpl \<longrightarrow>
    cdrLoop k env tpl acc st pre [] s = Return (None, cdrs1, s1) \<longrightarrow>
    logged st p \<longrightarrow> Balance (actions st p) = Some b \<longrightarrow>
    synthesizeCDR k env tpl acc (actions st p) (filters st b) (length cdrs1) = Return cdr \<longrightarrow>
    cdrStorage env = Some SetCDR \<longrightarrow> SetCDR cdr s1 = (Some e', s2) \<longrightarrow>
      cdrLogAction k env acc sq a (pre @ p # post) st s = Return (Some e', cdrs1 @ [cdr], st, s2) \<and>
      length (cdrs1 @ [cdr]) = length (filter (logged st) (pre @ [p])))"
proof (intro conjI impI)
  assume run: "cdrLogAction k env acc sq a acs st s = Return (None, cdrs, st', s')"
  then obtain template s1 where
    "cdrLoop k env template acc st acs [] s1 = Return (None, cdrs, s')"
    by (auto simp: cdrLogAction_def split: sum.splits outcome.splits option.splits if_splits)
  from cdrLoop_logged [OF this]
  have l: "list_all2 (\<lambda>cdr p. \<exists>b n. Balance (actions st p) = Some b \<and>
                        synthesizeCDR k env template acc (actions st p) (filters st b) n = Return cdr)
              cdrs (filter (logged st) acs)" by simp
  then show "length cdrs = length (filter (logged st) acs)" by (rule list_all2_lengthD)
  from l show "\<exists>template.
         list_all2 (\<lambda>cdr p. \<exists>b n. Balance (actions st p) = Some b \<and>
                     synthesizeCDR k env template acc (actions st p) (filters st b) n = Return cdr)
           cdrs (filter (logged st) acs)" by blast
next
  assume "(if ExtraParameters (actions st a) \<noteq> []
     then (case unmarshalTemplate env (ExtraParameters (actions st a)) of
             Inl e \<Rightarrow> Inl e
           | Inr entries \<Rightarrow> overwriteTemplate env entries (defaultTemplate k env))
     else Inr (defaultTemplate k env)) = Inl e"
  then show "cdrLogAction k env acc sq a acs st s = Return (Some e, [], st, s)"
    by (simp add: cdrLogAction_def)
next
  assume tpl: "(if ExtraParameters (actions st a) \<noteq> []
     then (case unmarshalTemplate env (ExtraParameters (actions st a)) of
             Inl e \<Rightarrow> Inl e
           | Inr entries \<Rightarrow> overwriteTemplate env entries (defaultTemplate k env))
     else Inr (defaultTemplate k env)) = Inr tpl"
    and pre: "cdrLoop k env tpl acc st pre [] s = Return (None, cdrs1, s1)"
    and p: "logged st p" "Balance (actions st p) = Some b"
    and cdr: "synthesizeCDR k env tpl acc (actions st p) (filters st b) (length cdrs1) = Return cdr"
    and store: "cdrStorage env = Some SetCDR" "SetCDR cdr s1 = (Some e', s2)"
  have "cdrLoop k env tpl acc st (p # post) cdrs1 s1 = Return (Some e', cdrs1 @ [cdr], s2)"
    using p cdr store by simp
  then have "cdrLoop k env tpl acc st (pre @ p # post) [] s = Return (Some e', cdrs1 @ [cdr], s2)"
    by (simp add: cdrLoop_append pre)
  then show "cdrLogAction k env acc sq a (pre @ p # post) st s = Return (Some e', cdrs1 @ [cdr], st, s2)"
    using tpl by (simp add: cdrLogAction_def)
  from cdrLoop_logged [OF pre] have "length cdrs1 = length (filter (logged st) pre)"
    by (auto dest: list_all2_lengthD)
  then show "length (cdrs1 @ [cdr]) = length (filter (logged st) (pre @ [p]))"
    using p(1) by simp
qed

theorem cdrLogAction_one_cdr_per_logged_sibling_witness:
  "cdrLogAction logConsts logEnv (Some someAccount) None 32 [30, 31, 32] logStore () =
     Return (None, [debitCDR], loggedStore, ()) \<and>
   filter (logged logStore) [30, 31, 32] = [30] \<and>
   length [debitCDR] = length (filter (logged logStore) [30, 31, 32]) \<and>
   cdrLogAction logConsts logEnv (Some someAccount) None 32 [30, 31, 32] badTemplateStore () =
     Return (Some (External ''unexpected end of JSON input''), [], badTemplateStore, ()) \<and>
   filter (logged logStore) [31, 30, 32, 30] = [30, 30] \<and>
   cdrLogAction logConsts failingStoreEnv (Some someAccount) None 32 ([31] @ 30 # [32, 30]) logStore () =
     Return (Some (External ''store unreachable''), [] @ [debitCDR], logStore, ())"
proof -
  have run: "cdrLogAction logConsts logEnv (Some someAccount) None 32 [30, 31, 32] logStore () =
     Return (None, [debitCDR], loggedStore, ())"
    by (simp add: log_eval)
  have f: "filter (logged logStore) [30, 31, 32] = [30]"
    "filter (logged logStore) [31, 30, 32, 30] = [30, 30]"
    by (simp_all add: logged_def logStore_def emptyStore_def zeroAction_def DEBIT_def DEBIT_RESET_def
        TOPUP_def TOPUP_RESET_def)
  note thm1 = cdrLogAction_one_cdr_per_logged_sibling
      [of logConsts logEnv "Some someAccount" None 32 "[30, 31, 32]" logStore "()" "[debitCDR]"
          loggedStore "()"]
  from thm1 run
  have a: "length [debitCDR] = length (filter (logged logStore) [30, 31, 32])" by blast
  have bad: "(if ExtraParameters (actions badTemplateStore 32) \<noteq> []
     then (case unmarshalTemplate logEnv (ExtraParameters (actions badTemplateStore 32)) of
             Inl e \<Rightarrow> Inl e
           | Inr entries \<Rightarrow> overwriteTemplate logEnv entries (defaultTemplate logConsts logEnv))
     else Inr (defaultTemplate logConsts logEnv)) = Inl (External ''unexpected end of JSON input'')"
    by (simp add: badTemplateStore_def logStore_def emptyStore_def zeroAction_def logEnv_def)
  from cdrLogAction_one_cdr_per_logged_sibling
      [where k = logConsts and env = logEnv and st = badTemplateStore and a = 32
         and e = "External ''unexpected end of JSON input''" and acc = "Some someAccount"
         and sq = None and acs = "[30, 31, 32]" and s = "()"] bad
  have b: "cdrLogAction logConsts logEnv (Some someAccount) None 32 [30, 31, 32] badTemplateStore () =
     Return (Some (External ''unexpected end of JSON input''), [], badTemplateStore, ())"
    by blast
  have t: "(if ExtraParameters (actions logStore 32) \<noteq> []
     then (case unmarshalTemplate failingStoreEnv (ExtraParameters (actions logStore 32)) of
             Inl e \<Rightarrow> Inl e
           | Inr entries \<Rightarrow> overwriteTemplate failingStoreEnv entries (defaultTemplate logConsts failingStoreEnv))
     else Inr (defaultTemplate logConsts failingStoreEnv)) = Inr (defaultTemplate logConsts failingStoreEnv)"
    by (simp add: logStore_def emptyStore_def zeroAction_def)
  have pre: "cdrLoop logConsts failingStoreEnv (defaultTemplate logConsts failingStoreEnv)
      (Some someAccount) logStore [31] [] () = Return (None, [], ())"
    by (simp add: logged_def logStore_def emptyStore_def zeroAction_def DEBIT_def DEBIT_RESET_def
        TOPUP_def TOPUP_RESET_def)
  have lg: "logged logStore 30" "Balance (actions logStore 30) = Some 0"
    by (simp_all add: logged_def logStore_def emptyStore_def zeroAction_def DEBIT_def DEBIT_RESET_def
        TOPUP_def TOPUP_RESET_def)
  have syn: "synthesizeCDR logConsts failingStoreEnv (defaultTemplate logConsts failingStoreEnv)
      (Some someAccount) (actions logStore 30) (filters logStore 0) (length ([]::CDR list)) = Return debitCDR"
    by (simp add: failingStoreEnv_def log_eval)
  have stg: "cdrStorage failingStoreEnv = Some (\<lambda>cdr s. (Some (External ''store unreachable''), s))"
    "(\<lambda>cdr s. (Some (External ''store unreachable''), s)) debitCDR () = (Some (External ''store unreachable''), ())"
    by (simp_all add: failingStoreEnv_def)
  from cdrLogAction_one_cdr_per_logged_sibling
      [where k = logConsts and env = failingStoreEnv and st = logStore and a = 32
         and tpl = "defaultTemplate logConsts failingStoreEnv" and acc = "Some someAccount"
         and pre = "[31]" and s = "()" and ?cdrs1.0 = "[]" and ?s1.0 = "()" and p = 30 and b = 0
         and cdr = debitCDR and SetCDR = "\<lambda>cdr s. (Some (External ''store unreachable''), s)"
         and e' = "External ''store unreachable''" and ?s2.0 = "()" and sq = None and post = "[32, 30]"]
    t pre lg syn stg
  have c: "cdrLogAction logConsts failingStoreEnv (Some someAccount) None 32 ([31] @ 30 # [32, 30]) logStore () =
     Return (Some (External ''store unreachable''), [] @ [debitCDR], logStore, ())"
    by blast
  from run f a b c show ?thesis by blast
qed

text \<open>
  C6 as stated fails: when \<open>ExtraParameters\<close> of the \<open>cdrlog\<close> action does not decode as a
  template, the handler returns the error before it looks at the siblings, and no CDR is
  synthesized for the debit among them.
\<close>

theorem cdrLogAction_bad_template_counterexample:
  "logged badTemplateStore 30 \<and>
   badTemplateRun = Return (Some (External ''unexpected end of JSON input''), [], badTemplateStore, ())"
  by (simp add: badTemplateRun_def cdrLogAction_def badTemplateStore_def logStore_def emptyStore_def
      zeroAction_def logEnv_def logged_def DEBIT_def DEBIT_RESET_def TOPUP_def TOPUP_RESET_def)

end
